theory Spec2Isabelle
  imports Main "HOL-Library.Multiset"
begin

section \<open>JavaScript values\<close>

text \<open>
  A request body is the value that the JSON body parser hands to a route handler; a
  validated payload is the value that a schema's \<open>parse\<close> returns. Both are JavaScript
  values. Numbers are integers here (fractions and infinities are outside the model);
  a \<open>Date\<close> holds its time value in milliseconds, \<open>None\<close> for an invalid date.
  A missing property reads as \<open>JUndefined\<close>.
\<close>

datatype jsval =
    JUndefined
  | JNull
  | JBool bool
  | JNum int
  | JStr string
  | JDate "int option"
  | JArr "jsval list"
  | JObj "(string \<times> jsval) list"

text \<open>The result of \<open>parseInt\<close>: an integer or \<open>NaN\<close>.\<close>

datatype jsnum = NaN | Num int

fun getProp :: "(string \<times> jsval) list \<Rightarrow> string \<Rightarrow> jsval" where
  "getProp [] k = JUndefined"
| "getProp ((k', v) # kvs) k = (if k' = k then v else getProp kvs k)"

subsection \<open>parseInt\<close>

text \<open>
  \<open>parseInt(s)\<close> with no radix: leading white space is skipped, an optional sign is
  read, a \<open>0x\<close> or \<open>0X\<close> prefix selects radix 16, and the longest prefix of digits is
  the value; no digit at all gives \<open>NaN\<close>. Whatever follows the digits is ignored.
\<close>

definition isWhiteSpace :: "char \<Rightarrow> bool" where
  "isWhiteSpace c = (c \<in> set [CHR '' '', CHR 0x09, CHR 0x0A, CHR 0x0B, CHR 0x0C, CHR 0x0D])"

definition digitValue :: "char \<Rightarrow> nat option" where
  "digitValue c =
     (let n = of_char c :: nat in
      if 48 \<le> n \<and> n \<le> 57 then Some (n - 48)
      else if 97 \<le> n \<and> n \<le> 122 then Some (n - 87)
      else if 65 \<le> n \<and> n \<le> 90 then Some (n - 55)
      else None)"

definition isDigit :: "nat \<Rightarrow> char \<Rightarrow> bool" where
  "isDigit R c = (case digitValue c of Some d \<Rightarrow> d < R | None \<Rightarrow> False)"

definition digitsValue :: "nat \<Rightarrow> string \<Rightarrow> int" where
  "digitsValue R Z = foldl (\<lambda>acc c. acc * int R + int (the (digitValue c))) 0 Z"

definition parseInt :: "string \<Rightarrow> jsnum" where
  "parseInt inputString =
     (let S = dropWhile isWhiteSpace inputString;
          sign = (if S \<noteq> [] \<and> hd S = CHR ''-'' then - 1 else 1 :: int);
          S = (if S \<noteq> [] \<and> (hd S = CHR ''+'' \<or> hd S = CHR ''-'') then tl S else S);
          hex = (take 2 S = ''0x'' \<or> take 2 S = ''0X'');
          R = (if hex then 16 else 10);
          S = (if hex then drop 2 S else S);
          Z = takeWhile (isDigit R) S
      in if Z = [] then NaN else Num (sign * digitsValue R Z))"

section \<open>Schema validation\<close>

text \<open>
  The validation library's schemas, as far as the repository builds them: strings,
  numbers, dates, JSON values, arrays, objects, the \<open>nullable\<close> and \<open>optional\<close>
  wrappers and \<open>transform\<close>. A failed parse carries the list of issues, each with
  the path of the offending field.
\<close>

datatype pathel = Key string | Index nat

datatype zissue = ZodIssue (code: string) (path: "pathel list") (message: string)

datatype zschema =
    ZString
  | ZNumber
  | ZDate
  | ZJson
  | ZArray zschema
  | ZNullable zschema
  | ZOptional zschema
  | ZObject "(string \<times> zschema) list"
  | ZTransform zschema "jsval \<Rightarrow> jsval"

fun getParsedType :: "jsval \<Rightarrow> string" where
  "getParsedType JUndefined = ''undefined''"
| "getParsedType JNull = ''null''"
| "getParsedType (JBool b) = ''boolean''"
| "getParsedType (JNum n) = ''number''"
| "getParsedType (JStr s) = ''string''"
| "getParsedType (JDate d) = ''date''"
| "getParsedType (JArr xs) = ''array''"
| "getParsedType (JObj kvs) = ''object''"

definition invalid_type :: "pathel list \<Rightarrow> string \<Rightarrow> jsval \<Rightarrow> zissue" where
  "invalid_type p expected v =
     ZodIssue ''invalid_type'' p
       (if v = JUndefined then ''Required''
        else ''Expected '' @ expected @ '', received '' @ getParsedType v)"

text \<open>The JSON column's schema accepts every value built from literals, arrays and
  records.\<close>

fun isJson :: "jsval \<Rightarrow> bool" where
  "isJson JUndefined = False"
| "isJson JNull = True"
| "isJson (JBool b) = True"
| "isJson (JNum n) = True"
| "isJson (JStr s) = True"
| "isJson (JDate d) = False"
| "isJson (JArr xs) = list_all isJson xs"
| "isJson (JObj kvs) = list_all (\<lambda>kv. isJson (snd kv)) kvs"

text \<open>An array or object is valid when every element is; otherwise the issues of all
  elements are reported together.\<close>

fun mergeResults :: "(zissue list + 'a) list \<Rightarrow> zissue list + 'a list" where
  "mergeResults [] = Inr []"
| "mergeResults (Inl e # rs) =
     (case mergeResults rs of Inl es \<Rightarrow> Inl (e @ es) | Inr vs \<Rightarrow> Inl e)"
| "mergeResults (Inr v # rs) =
     (case mergeResults rs of Inl es \<Rightarrow> Inl es | Inr vs \<Rightarrow> Inr (v # vs))"

fun parse :: "zschema \<Rightarrow> pathel list \<Rightarrow> jsval \<Rightarrow> zissue list + jsval" where
  "parse ZString p v =
     (case v of JStr s \<Rightarrow> Inr v | _ \<Rightarrow> Inl [invalid_type p ''string'' v])"
| "parse ZNumber p v =
     (case v of JNum n \<Rightarrow> Inr v | _ \<Rightarrow> Inl [invalid_type p ''number'' v])"
| "parse ZDate p v =
     (case v of
        JDate (Some t) \<Rightarrow> Inr v
      | JDate None \<Rightarrow> Inl [ZodIssue ''invalid_date'' p ''Invalid date'']
      | _ \<Rightarrow> Inl [invalid_type p ''date'' v])"
| "parse ZJson p v =
     (if isJson v then Inr v else Inl [ZodIssue ''invalid_union'' p ''Invalid input''])"
| "parse (ZArray t) p v =
     (case v of
        JArr xs \<Rightarrow>
          (case mergeResults (map (\<lambda>(i, x). parse t (p @ [Index i]) x) (enumerate 0 xs)) of
             Inl es \<Rightarrow> Inl es
           | Inr vs \<Rightarrow> Inr (JArr vs))
      | _ \<Rightarrow> Inl [invalid_type p ''array'' v])"
| "parse (ZNullable t) p v = (if v = JNull then Inr JNull else parse t p v)"
| "parse (ZOptional t) p v = (if v = JUndefined then Inr JUndefined else parse t p v)"
| "parse (ZObject shape) p v =
     (case v of
        JObj kvs \<Rightarrow>
          (case mergeResults
                  (map (\<lambda>kt. map_sum id (Pair (fst kt))
                                (parse (snd kt) (p @ [Key (fst kt)]) (getProp kvs (fst kt))))
                       shape) of
             Inl es \<Rightarrow> Inl es
           | Inr pairs \<Rightarrow> Inr (JObj (filter (\<lambda>kv. snd kv \<noteq> JUndefined) pairs)))
      | _ \<Rightarrow> Inl [invalid_type p ''object'' v])"
| "parse (ZTransform t f) p v =
     (case parse t p v of Inl es \<Rightarrow> Inl es | Inr v' \<Rightarrow> Inr (f v'))"

section \<open>Table declarations\<close>

text \<open>
  A table is declared column by column: the column's type, then the modifiers
  \<open>notNull\<close>, \<open>default\<close>, \<open>defaultNow\<close>, \<open>primaryKey\<close>, \<open>unique\<close>, \<open>array\<close> and
  \<open>references\<close>. Rows are read and written under the property names of the
  declaration.
\<close>

datatype sqlval =
    SNull
  | SInt int
  | SText string
  | STimestamp int
  | SJson jsval
  | SArray "sqlval list"

datatype coltype = PgSerial | PgInteger | PgText | PgTimestamp | PgJson | PgArray coltype

datatype coldefault = DefaultValue sqlval | DefaultNow | DefaultNextval

record column =
  colName :: string
  colType :: coltype
  colNotNull :: bool
  colDefault :: "coldefault option"
  colPrimaryKey :: bool
  colUnique :: bool
  colReferences :: "(string \<times> string) option"

definition column :: "string \<Rightarrow> coltype \<Rightarrow> column" where
  "column n ty =
     \<lparr>colName = n, colType = ty, colNotNull = False, colDefault = None,
      colPrimaryKey = False, colUnique = False, colReferences = None\<rparr>"

definition serial :: "string \<Rightarrow> column" where
  "serial n = (column n PgSerial)\<lparr>colNotNull := True, colDefault := Some DefaultNextval\<rparr>"

definition integer :: "string \<Rightarrow> column" where
  "integer n = column n PgInteger"

definition pg_text :: "string \<Rightarrow> column" where
  "pg_text n = column n PgText"

definition timestamp :: "string \<Rightarrow> column" where
  "timestamp n = column n PgTimestamp"

definition json :: "string \<Rightarrow> column" where
  "json n = column n PgJson"

definition notNull :: "column \<Rightarrow> column" where
  "notNull c = c\<lparr>colNotNull := True\<rparr>"

definition withDefault :: "sqlval \<Rightarrow> column \<Rightarrow> column" where
  "withDefault v c = c\<lparr>colDefault := Some (DefaultValue v)\<rparr>"

definition defaultNow :: "column \<Rightarrow> column" where
  "defaultNow c = c\<lparr>colDefault := Some DefaultNow\<rparr>"

definition primaryKey :: "column \<Rightarrow> column" where
  "primaryKey c = c\<lparr>colPrimaryKey := True, colNotNull := True\<rparr>"

definition unique :: "column \<Rightarrow> column" where
  "unique c = c\<lparr>colUnique := True\<rparr>"

definition array :: "column \<Rightarrow> column" where
  "array c = c\<lparr>colType := PgArray (colType c)\<rparr>"

definition references :: "string \<times> string \<Rightarrow> column \<Rightarrow> column" where
  "references target c = c\<lparr>colReferences := Some target\<rparr>"

definition hasDefault :: "column \<Rightarrow> bool" where
  "hasDefault c = (colDefault c \<noteq> None)"

record pg_table =
  tableName :: string
  columns :: "(string \<times> column) list"

definition pgTable :: "string \<Rightarrow> (string \<times> column) list \<Rightarrow> pg_table" where
  "pgTable n cs = \<lparr>tableName = n, columns = cs\<rparr>"

definition users :: pg_table where
  "users = pgTable ''users''
     [(''id'', primaryKey (serial ''id'')),
      (''username'', unique (notNull (pg_text ''username''))),
      (''password'', notNull (pg_text ''password''))]"

definition content :: pg_table where
  "content = pgTable ''content''
     [(''id'', primaryKey (serial ''id'')),
      (''title'', notNull (pg_text ''title'')),
      (''type'', notNull (pg_text ''type'')),
      (''genres'', notNull (array (pg_text ''genres''))),
      (''duration'', pg_text ''duration''),
      (''rating'', notNull (pg_text ''rating'')),
      (''status'', withDefault (SText ''draft'') (notNull (pg_text ''status''))),
      (''views'', withDefault (SInt 0) (integer ''views'')),
      (''description'', pg_text ''description''),
      (''thumbnailUrl'', pg_text ''thumbnail_url''),
      (''videoUrl'', pg_text ''video_url''),
      (''trailerUrl'', pg_text ''trailer_url''),
      (''releaseYear'', integer ''release_year''),
      (''director'', pg_text ''director''),
      (''writer'', pg_text ''writer''),
      (''cast'', array (pg_text ''cast'')),
      (''tags'', array (pg_text ''tags'')),
      (''episodes'', integer ''episodes''),
      (''createdAt'', notNull (defaultNow (timestamp ''created_at''))),
      (''updatedAt'', notNull (defaultNow (timestamp ''updated_at'')))]"

definition upcomingContent :: pg_table where
  "upcomingContent = pgTable ''upcoming_content''
     [(''id'', primaryKey (serial ''id'')),
      (''title'', notNull (pg_text ''title'')),
      (''type'', notNull (pg_text ''type'')),
      (''genres'', notNull (array (pg_text ''genres''))),
      (''episodes'', integer ''episodes''),
      (''releaseDate'', notNull (timestamp ''release_date'')),
      (''description'', notNull (pg_text ''description'')),
      (''thumbnailUrl'', pg_text ''thumbnail_url''),
      (''trailerUrl'', pg_text ''trailer_url''),
      (''sectionOrder'', withDefault (SInt 0) (integer ''section_order'')),
      (''createdAt'', notNull (defaultNow (timestamp ''created_at'')))]"

definition analytics :: pg_table where
  "analytics = pgTable ''analytics''
     [(''id'', primaryKey (serial ''id'')),
      (''contentId'', references (''content'', ''id'') (integer ''content_id'')),
      (''eventType'', notNull (pg_text ''event_type'')),
      (''userId'', references (''users'', ''id'') (integer ''user_id'')),
      (''timestamp'', notNull (defaultNow (timestamp ''timestamp''))),
      (''metadata'', json ''metadata'')]"

text \<open>The tables of the schema, for the foreign keys that point into a table.\<close>

definition schemaTables :: "pg_table list" where
  "schemaTables = [users, content, upcomingContent, analytics]"

section \<open>Insert schemas\<close>

text \<open>
  \<open>createInsertSchema\<close> gives every column the validator of its type; a nullable
  column's field is nullable and optional, a column with a default is optional, every
  other field is required. \<open>omit\<close>, \<open>pick\<close>, \<open>extend\<close> and \<open>partial\<close> act on the
  object's shape. Keys of the input that the shape does not name are dropped by
  \<open>parse\<close>.
\<close>

fun mapColumnToSchema :: "coltype \<Rightarrow> zschema" where
  "mapColumnToSchema PgSerial = ZNumber"
| "mapColumnToSchema PgInteger = ZNumber"
| "mapColumnToSchema PgText = ZString"
| "mapColumnToSchema PgTimestamp = ZDate"
| "mapColumnToSchema PgJson = ZJson"
| "mapColumnToSchema (PgArray ty) = ZArray (mapColumnToSchema ty)"

definition columnSchema :: "column \<Rightarrow> zschema" where
  "columnSchema c =
     (let s = mapColumnToSchema (colType c) in
      if \<not> colNotNull c then ZOptional (ZNullable s)
      else if hasDefault c then ZOptional s
      else s)"

definition createInsertSchema :: "pg_table \<Rightarrow> zschema" where
  "createInsertSchema t = ZObject (map (\<lambda>kc. (fst kc, columnSchema (snd kc))) (columns t))"

fun shape :: "zschema \<Rightarrow> (string \<times> zschema) list" where
  "shape (ZObject sh) = sh"
| "shape s = []"

definition omit :: "string list \<Rightarrow> zschema \<Rightarrow> zschema" where
  "omit keys s = ZObject (filter (\<lambda>kt. fst kt \<notin> set keys) (shape s))"

definition pick :: "string list \<Rightarrow> zschema \<Rightarrow> zschema" where
  "pick keys s = ZObject (filter (\<lambda>kt. fst kt \<in> set keys) (shape s))"

definition zodExtend :: "(string \<times> zschema) list \<Rightarrow> zschema \<Rightarrow> zschema" where
  "zodExtend augmentation s =
     ZObject (map (\<lambda>kt. case map_of augmentation (fst kt) of
                           Some t \<Rightarrow> (fst kt, t) | None \<Rightarrow> kt) (shape s)
              @ filter (\<lambda>kt. fst kt \<notin> fst ` set (shape s)) augmentation)"

definition partial :: "zschema \<Rightarrow> zschema" where
  "partial s = ZObject (map (\<lambda>kt. (fst kt, ZOptional (snd kt))) (shape s))"

definition insertUserSchema :: zschema where
  "insertUserSchema = pick [''username'', ''password''] (createInsertSchema users)"

definition insertContentSchema :: zschema where
  "insertContentSchema =
     omit [''id'', ''createdAt'', ''updatedAt'', ''views''] (createInsertSchema content)"

text \<open>
  \<open>new Date(v)\<close> is taken as a parameter \<open>Date\<close>: the time value of the date built
  from \<open>v\<close>, \<open>None\<close> when \<open>v\<close> is not parseable (an invalid date). The transform of
  the release date builds the date and nothing else.
\<close>

definition insertUpcomingContentSchema :: "(jsval \<Rightarrow> int option) \<Rightarrow> zschema" where
  "insertUpcomingContentSchema Date =
     zodExtend [(''releaseDate'', ZTransform ZString (\<lambda>str. JDate (Date str)))]
       (omit [''id'', ''createdAt''] (createInsertSchema upcomingContent))"

definition insertAnalyticsSchema :: zschema where
  "insertAnalyticsSchema = omit [''id'', ''timestamp''] (createInsertSchema analytics)"

section \<open>The relational store\<close>

text \<open>
  The store holds, for every table, its rows and the last value of its identifier
  sequence. A statement either returns or raises a store error; the errors modelled
  are the ones the table declarations and the parameter types give rise to: a null in
  a \<open>notNull\<close> column, a duplicate of a unique value, a dangling or still referenced
  foreign key, an integer outside the 32-bit range, an identifier that is \<open>NaN\<close>, an
  invalid date, an update that sets nothing. A value that does not have its column's
  declared type is outside the typed contract of the data-access layer; the model
  raises \<open>DataTypeMismatch\<close> for it. Connection failures are not modelled.
\<close>

type_synonym row = "(string \<times> sqlval) list"

definition col :: "row \<Rightarrow> string \<Rightarrow> sqlval" where
  "col r k = (case map_of r k of Some v \<Rightarrow> v | None \<Rightarrow> SNull)"

record table_state =
  rows :: "row list"
  lastId :: int

type_synonym db = "string \<Rightarrow> table_state"

datatype store_error =
    NotNullViolation string
  | UniqueViolation string
  | ForeignKeyViolation string
  | NumericValueOutOfRange
  | InvalidTextRepresentation
  | InvalidTimeValue
  | DataTypeMismatch
  | NoValuesToSet

definition int4 :: "int \<Rightarrow> bool" where
  "int4 n = (- 2147483648 \<le> n \<and> n \<le> 2147483647)"

fun sequenceSum :: "('e + 'a) list \<Rightarrow> 'e + 'a list" where
  "sequenceSum [] = Inr []"
| "sequenceSum (Inl e # rs) = Inl e"
| "sequenceSum (Inr v # rs) = (case sequenceSum rs of Inl e \<Rightarrow> Inl e | Inr vs \<Rightarrow> Inr (v # vs))"

fun mapToDriverValue :: "coltype \<Rightarrow> jsval \<Rightarrow> store_error + sqlval" where
  "mapToDriverValue ty JNull = Inr SNull"
| "mapToDriverValue PgSerial (JNum n) =
     (if int4 n then Inr (SInt n) else Inl NumericValueOutOfRange)"
| "mapToDriverValue PgInteger (JNum n) =
     (if int4 n then Inr (SInt n) else Inl NumericValueOutOfRange)"
| "mapToDriverValue PgText (JStr s) = Inr (SText s)"
| "mapToDriverValue PgTimestamp (JDate (Some t)) = Inr (STimestamp t)"
| "mapToDriverValue PgTimestamp (JDate None) = Inl InvalidTimeValue"
| "mapToDriverValue PgJson v = (if isJson v then Inr (SJson v) else Inl DataTypeMismatch)"
| "mapToDriverValue (PgArray ty) (JArr xs) =
     (case sequenceSum (map (mapToDriverValue ty) xs) of
        Inl e \<Rightarrow> Inl e
      | Inr vs \<Rightarrow> Inr (SArray vs))"
| "mapToDriverValue ty v = Inl DataTypeMismatch"

text \<open>The identifier of a \<open>where\<close> clause, as the store reads the parameter.\<close>

fun idParam :: "jsnum \<Rightarrow> store_error + sqlval" where
  "idParam NaN = Inl InvalidTextRepresentation"
| "idParam (Num n) = (if int4 n then Inr (SInt n) else Inl NumericValueOutOfRange)"

subsection \<open>Constraints\<close>

definition referencing :: "pg_table \<Rightarrow> string \<Rightarrow> (string \<times> string) list" where
  "referencing t k =
     concat (map (\<lambda>t2. map (\<lambda>kc. (tableName t2, fst kc))
                          (filter (\<lambda>kc. colReferences (snd kc) = Some (tableName t, k))
                                  (columns t2)))
                 schemaTables)"

definition isReferenced :: "db \<Rightarrow> pg_table \<Rightarrow> string \<Rightarrow> sqlval \<Rightarrow> bool" where
  "isReferenced db t k v =
     (v \<noteq> SNull \<and>
      list_ex (\<lambda>tk. list_ex (\<lambda>r. col r (snd tk) = v) (rows (db (fst tk)))) (referencing t k))"

definition notNullViolations :: "(string \<times> column) list \<Rightarrow> row \<Rightarrow> string list" where
  "notNullViolations cols r =
     map fst (filter (\<lambda>kc. colNotNull (snd kc) \<and> col r (fst kc) = SNull) cols)"

definition uniqueViolations :: "(string \<times> column) list \<Rightarrow> row list \<Rightarrow> row \<Rightarrow> string list" where
  "uniqueViolations cols others r =
     map fst (filter (\<lambda>kc. (colPrimaryKey (snd kc) \<or> colUnique (snd kc)) \<and>
                            col r (fst kc) \<noteq> SNull \<and>
                            list_ex (\<lambda>r'. col r' (fst kc) = col r (fst kc)) others)
                     cols)"

definition foreignKeyViolations :: "(string \<times> column) list \<Rightarrow> db \<Rightarrow> row \<Rightarrow> string list" where
  "foreignKeyViolations cols db r =
     map fst (filter (\<lambda>kc. case colReferences (snd kc) of
                              None \<Rightarrow> False
                            | Some tk \<Rightarrow>
                                col r (fst kc) \<noteq> SNull \<and>
                                \<not> list_ex (\<lambda>r'. col r' (snd tk) = col r (fst kc))
                                           (rows (db (fst tk))))
                     cols)"

text \<open>The constraints of the columns \<open>cols\<close> on a new or rewritten row; \<open>others\<close>
  are the other rows of its table.\<close>

definition checkConstraints ::
  "(string \<times> column) list \<Rightarrow> db \<Rightarrow> row list \<Rightarrow> row \<Rightarrow> store_error option" where
  "checkConstraints cols db others r =
     (case notNullViolations cols r of
        k # ks \<Rightarrow> Some (NotNullViolation k)
      | [] \<Rightarrow>
          (case uniqueViolations cols others r of
             k # ks \<Rightarrow> Some (UniqueViolation k)
           | [] \<Rightarrow>
               (case foreignKeyViolations cols db r of
                  k # ks \<Rightarrow> Some (ForeignKeyViolation k)
                | [] \<Rightarrow> None)))"

subsection \<open>insert ... returning\<close>

definition evalDefault :: "int \<Rightarrow> int \<Rightarrow> column \<Rightarrow> sqlval" where
  "evalDefault now nextval c =
     (case colDefault c of
        None \<Rightarrow> SNull
      | Some (DefaultValue v) \<Rightarrow> v
      | Some DefaultNow \<Rightarrow> STimestamp now
      | Some DefaultNextval \<Rightarrow> SInt nextval)"

definition usesSequence :: "(string \<times> column) list \<Rightarrow> (string \<times> jsval) list \<Rightarrow> bool" where
  "usesSequence cols vals =
     list_ex (\<lambda>kc. getProp vals (fst kc) = JUndefined \<and>
                    colDefault (snd kc) = Some DefaultNextval) cols"

definition buildRow ::
  "int \<Rightarrow> int \<Rightarrow> (string \<times> column) list \<Rightarrow> (string \<times> jsval) list \<Rightarrow> store_error + row" where
  "buildRow now nextval cols vals =
     sequenceSum
       (map (\<lambda>kc. let v = getProp vals (fst kc) in
                   if v = JUndefined then Inr (fst kc, evalDefault now nextval (snd kc))
                   else map_sum id (Pair (fst kc)) (mapToDriverValue (colType (snd kc)) v))
            cols)"

text \<open>
  One row is inserted: supplied values are taken, every other column gets its
  default. The sequence value is consumed as soon as the row is formed, also when
  it does not fit the identifier column or a constraint then rejects the row.
\<close>

definition insertReturning ::
  "pg_table \<Rightarrow> int \<Rightarrow> (string \<times> jsval) list \<Rightarrow> db \<Rightarrow> (store_error + row) \<times> db" where
  "insertReturning t now vals db =
     (let ts = db (tableName t); nextval = lastId ts + 1 in
      case buildRow now nextval (columns t) vals of
        Inl e \<Rightarrow> (Inl e, db)
      | Inr r \<Rightarrow>
          (let ts' = (if usesSequence (columns t) vals then ts\<lparr>lastId := nextval\<rparr> else ts) in
           if usesSequence (columns t) vals \<and> \<not> int4 nextval
           then (Inl NumericValueOutOfRange, db(tableName t := ts'))
           else
             (case checkConstraints (columns t) db (rows ts) r of
                Some e \<Rightarrow> (Inl e, db(tableName t := ts'))
              | None \<Rightarrow> (Inr r, db(tableName t := ts'\<lparr>rows := rows ts @ [r]\<rparr>)))))"

subsection \<open>update ... set ... where id = ... returning\<close>

definition assignments ::
  "(string \<times> column) list \<Rightarrow> (string \<times> jsval) list \<Rightarrow> store_error + (string \<times> sqlval) list" where
  "assignments cols vals =
     sequenceSum
       (map (\<lambda>kc. map_sum id (Pair (fst kc))
                     (mapToDriverValue (colType (snd kc)) (getProp vals (fst kc))))
            (filter (\<lambda>kc. getProp vals (fst kc) \<noteq> JUndefined) cols))"

definition assign :: "(string \<times> sqlval) list \<Rightarrow> row \<Rightarrow> row" where
  "assign as r = map (\<lambda>kv. (fst kv, case map_of as (fst kv) of Some v \<Rightarrow> v | None \<Rightarrow> snd kv)) r"

definition firstError :: "store_error option list \<Rightarrow> store_error option" where
  "firstError es = (case filter (\<lambda>e. e \<noteq> None) es of [] \<Rightarrow> None | e # es' \<Rightarrow> e)"

text \<open>
  Only the columns whose value is defined are set; setting no column at all is an
  error. The rows whose identifier matches are rewritten and returned; the
  constraints of the columns that are set are checked on them.
\<close>

definition updateSetWhereReturning ::
  "pg_table \<Rightarrow> (string \<times> jsval) list \<Rightarrow> jsnum \<Rightarrow> db \<Rightarrow> (store_error + row list) \<times> db" where
  "updateSetWhereReturning t vals id' db =
     (case assignments (columns t) vals of
        Inl e \<Rightarrow> (Inl e, db)
      | Inr as \<Rightarrow>
          if as = [] then (Inl NoValuesToSet, db)
          else
            (case idParam id' of
               Inl e \<Rightarrow> (Inl e, db)
             | Inr idv \<Rightarrow>
                 (let ts = db (tableName t);
                      hits = filter (\<lambda>r. col r ''id'' = idv) (rows ts);
                      others = filter (\<lambda>r. col r ''id'' \<noteq> idv) (rows ts);
                      updated = map (assign as) hits;
                      assigned = filter (\<lambda>kc. fst kc \<in> fst ` set as) (columns t)
                  in case firstError (map (checkConstraints assigned db others) updated) of
                       Some e \<Rightarrow> (Inl e, db)
                     | None \<Rightarrow>
                         if list_ex (\<lambda>r. list_ex (\<lambda>kv. col r (fst kv) \<noteq> snd kv \<and>
                                                         isReferenced db t (fst kv) (col r (fst kv)))
                                                  as) hits
                         then (Inl (ForeignKeyViolation (tableName t)), db)
                         else (Inr updated,
                               db(tableName t :=
                                    ts\<lparr>rows := map (\<lambda>r. if col r ''id'' = idv then assign as r else r)
                                                     (rows ts)\<rparr>)))))"

subsection \<open>delete ... where id = ...\<close>

text \<open>The result is the number of rows removed. A row that another table still
  references is not removed: the statement raises.\<close>

definition deleteWhere :: "pg_table \<Rightarrow> jsnum \<Rightarrow> db \<Rightarrow> (store_error + nat) \<times> db" where
  "deleteWhere t id' db =
     (case idParam id' of
        Inl e \<Rightarrow> (Inl e, db)
      | Inr idv \<Rightarrow>
          (let ts = db (tableName t);
               hits = filter (\<lambda>r. col r ''id'' = idv) (rows ts)
           in if list_ex (\<lambda>r. list_ex (\<lambda>kc. isReferenced db t (fst kc) (col r (fst kc)))
                                       (columns t)) hits
              then (Inl (ForeignKeyViolation (tableName t)), db)
              else (Inr (length hits),
                    db(tableName t := ts\<lparr>rows := filter (\<lambda>r. col r ''id'' \<noteq> idv) (rows ts)\<rparr>))))"

subsection \<open>select ... where ... order by ... limit\<close>

text \<open>
  \<open>order by\<close> is modelled for integer and timestamp columns, the only ones the
  queries order by. A null sorts as larger than every value: last in ascending order,
  first in descending order. Rows with equal keys keep their order in the table.
\<close>

fun sortKey :: "sqlval \<Rightarrow> int option" where
  "sortKey (SInt n) = Some n"
| "sortKey (STimestamp t) = Some t"
| "sortKey v = None"

fun keyLe :: "int option \<Rightarrow> int option \<Rightarrow> bool" where
  "keyLe a None = True"
| "keyLe None (Some b) = False"
| "keyLe (Some a) (Some b) = (a \<le> b)"

definition asc :: "string \<Rightarrow> row \<Rightarrow> row \<Rightarrow> bool" where
  "asc k r1 r2 = keyLe (sortKey (col r1 k)) (sortKey (col r2 k))"

definition desc :: "string \<Rightarrow> row \<Rightarrow> row \<Rightarrow> bool" where
  "desc k r1 r2 = keyLe (sortKey (col r2 k)) (sortKey (col r1 k))"

fun insertBy :: "('a \<Rightarrow> 'a \<Rightarrow> bool) \<Rightarrow> 'a \<Rightarrow> 'a list \<Rightarrow> 'a list" where
  "insertBy le x [] = [x]"
| "insertBy le x (y # ys) = (if le x y then x # y # ys else y # insertBy le x ys)"

definition orderBy :: "('a \<Rightarrow> 'a \<Rightarrow> bool) \<Rightarrow> 'a list \<Rightarrow> 'a list" where
  "orderBy le xs = foldr (insertBy le) xs []"

definition selectFrom :: "pg_table \<Rightarrow> db \<Rightarrow> row list" where
  "selectFrom t db = rows (db (tableName t))"

definition whereEq :: "string \<Rightarrow> sqlval \<Rightarrow> row list \<Rightarrow> row list" where
  "whereEq k v rs = filter (\<lambda>r. v \<noteq> SNull \<and> col r k = v) rs"

definition limit :: "nat \<Rightarrow> 'a list \<Rightarrow> 'a list" where
  "limit n rs = take n rs"

section \<open>Data-access layer\<close>

text \<open>
  \<open>DatabaseStorage\<close>: one statement per method. A method returns its result or
  raises the store's error; a method that writes also returns the store. The absence
  marker is \<open>None\<close>. The current time is an argument of the methods that read the
  clock.
\<close>

fun showNat :: "nat \<Rightarrow> string" where
  "showNat n =
     (if n < 10 then [char_of (48 + n)] else showNat (n div 10) @ [char_of (48 + n mod 10)])"

text \<open>The own enumerable properties of a value, as object spread and the query
  builder read them.\<close>

fun ownProps :: "jsval \<Rightarrow> (string \<times> jsval) list" where
  "ownProps (JObj kvs) = kvs"
| "ownProps (JArr xs) = map (\<lambda>ix. (showNat (fst ix), snd ix)) (enumerate 0 xs)"
| "ownProps (JStr s) = map (\<lambda>ic. (showNat (fst ic), JStr [snd ic])) (enumerate 0 s)"
| "ownProps v = []"

fun setProp :: "(string \<times> jsval) list \<Rightarrow> string \<Rightarrow> jsval \<Rightarrow> (string \<times> jsval) list" where
  "setProp [] k v = [(k, v)]"
| "setProp ((k', v') # kvs) k v = (if k' = k then (k, v) # kvs else (k', v') # setProp kvs k v)"

text \<open>\<open>const [item] = ...; return item || undefined\<close>\<close>

fun firstOrUndefined :: "'a list \<Rightarrow> 'a option" where
  "firstOrUndefined [] = None"
| "firstOrUndefined (x # xs) = Some x"

definition selectWhereId :: "pg_table \<Rightarrow> jsnum \<Rightarrow> db \<Rightarrow> store_error + row list" where
  "selectWhereId t id' db =
     (case idParam id' of
        Inl e \<Rightarrow> Inl e
      | Inr idv \<Rightarrow> Inr (whereEq ''id'' idv (selectFrom t db)))"

definition getAllContent :: "db \<Rightarrow> store_error + row list" where
  "getAllContent db = Inr (orderBy (desc ''createdAt'') (selectFrom content db))"


definition getPublishedContent :: "db \<Rightarrow> store_error + row list" where
  "getPublishedContent db =
     Inr (orderBy (desc ''createdAt'')
            (whereEq ''status'' (SText ''published'') (selectFrom content db)))"

definition createContent :: "int \<Rightarrow> jsval \<Rightarrow> db \<Rightarrow> (store_error + row) \<times> db" where
  "createContent now insertContent db =
     insertReturning content now (ownProps insertContent) db"

definition updateContent ::
  "int \<Rightarrow> jsnum \<Rightarrow> jsval \<Rightarrow> db \<Rightarrow> (store_error + row option) \<times> db" where
  "updateContent now id' updateContent' db =
     apfst (map_sum id firstOrUndefined)
       (updateSetWhereReturning content
          (setProp (ownProps updateContent') ''updatedAt'' (JDate (Some now))) id' db)"


definition getAllUpcomingContent :: "db \<Rightarrow> store_error + row list" where
  "getAllUpcomingContent db = Inr (orderBy (asc ''sectionOrder'') (selectFrom upcomingContent db))"

definition getUpcomingContentById :: "jsnum \<Rightarrow> db \<Rightarrow> store_error + row option" where
  "getUpcomingContentById id' db =
     map_sum id firstOrUndefined (selectWhereId upcomingContent id' db)"

definition createUpcomingContent :: "int \<Rightarrow> jsval \<Rightarrow> db \<Rightarrow> (store_error + row) \<times> db" where
  "createUpcomingContent now insertUpcoming db =
     insertReturning upcomingContent now (ownProps insertUpcoming) db"

definition updateUpcomingContent ::
  "jsnum \<Rightarrow> jsval \<Rightarrow> db \<Rightarrow> (store_error + row option) \<times> db" where
  "updateUpcomingContent id' updateUpcoming db =
     apfst (map_sum id firstOrUndefined)
       (updateSetWhereReturning upcomingContent (ownProps updateUpcoming) id' db)"

definition deleteUpcomingContent :: "jsnum \<Rightarrow> db \<Rightarrow> (store_error + bool) \<times> db" where
  "deleteUpcomingContent id' db =
     apfst (map_sum id (\<lambda>rowCount. rowCount > 0)) (deleteWhere upcomingContent id' db)"

definition createAnalyticsEvent :: "int \<Rightarrow> jsval \<Rightarrow> db \<Rightarrow> (store_error + row) \<times> db" where
  "createAnalyticsEvent now event db = insertReturning analytics now (ownProps event) db"

record analytics_summary =
  totalViews :: nat
  totalContent :: nat
  popularContent :: "row list"
  recentViews :: "row list"

definition getAnalytics :: "db \<Rightarrow> store_error + analytics_summary" where
  "getAnalytics db =
     Inr \<lparr>totalViews = length (whereEq ''eventType'' (SText ''view'') (selectFrom analytics db)),
          totalContent = length (selectFrom content db),
          popularContent = limit 10 (orderBy (desc ''views'') (selectFrom content db)),
          recentViews =
            limit 50 (orderBy (desc ''timestamp'')
                        (whereEq ''eventType'' (SText ''view'') (selectFrom analytics db)))\<rparr>"

section \<open>Route layer\<close>

text \<open>
  A handler takes the path parameter and the request body and gives the response
  (and the store, when it writes). \<open>res.json\<close> without a status is a 200. A thrown
  validation error is answered with 400 and its issues, any other throw with 500.
\<close>

datatype json_body =
    Row row
  | Rows "row list"
  | Summary analytics_summary
  | Error string
  | ErrorDetails string "zissue list"
  | SuccessTrue

record response =
  statusCode :: nat
  body :: json_body

definition respond :: "nat \<Rightarrow> json_body \<Rightarrow> response" where
  "respond sc b = \<lparr>statusCode = sc, body = b\<rparr>"

definition GET_api_content :: "db \<Rightarrow> response" where
  "GET_api_content db =
     (case getAllContent db of
        Inl e \<Rightarrow> respond 500 (Error ''Failed to fetch content'')
      | Inr rs \<Rightarrow> respond 200 (Rows rs))"

definition GET_api_content_published :: "db \<Rightarrow> response" where
  "GET_api_content_published db =
     (case getPublishedContent db of
        Inl e \<Rightarrow> respond 500 (Error ''Failed to fetch published content'')
      | Inr rs \<Rightarrow> respond 200 (Rows rs))"


definition POST_api_content :: "int \<Rightarrow> jsval \<Rightarrow> db \<Rightarrow> response \<times> db" where
  "POST_api_content now req_body db =
     (case parse insertContentSchema [] req_body of
        Inl errors \<Rightarrow> (respond 400 (ErrorDetails ''Invalid data'' errors), db)
      | Inr validatedData \<Rightarrow>
          (case createContent now validatedData db of
             (Inl e, db') \<Rightarrow> (respond 500 (Error ''Failed to create content''), db')
           | (Inr c, db') \<Rightarrow> (respond 200 (Row c), db')))"



text \<open>
  The creation of upcoming content does not go through the schema: the body's
  properties are handed to the data-access layer with \<open>releaseDate\<close> replaced by
  \<open>new Date(req.body.releaseDate)\<close>. Reading a property of a missing body throws.
\<close>

definition POST_api_upcoming_content ::
  "(jsval \<Rightarrow> int option) \<Rightarrow> int \<Rightarrow> jsval \<Rightarrow> db \<Rightarrow> response \<times> db" where
  "POST_api_upcoming_content Date now req_body db =
     (if req_body = JUndefined \<or> req_body = JNull
      then (respond 500 (Error ''Failed to create upcoming content''), db)
      else
        (let data = JObj (setProp (ownProps req_body) ''releaseDate''
                            (JDate (Date (getProp (ownProps req_body) ''releaseDate''))))
         in case createUpcomingContent now data db of
              (Inl e, db') \<Rightarrow> (respond 500 (Error ''Failed to create upcoming content''), db')
            | (Inr c, db') \<Rightarrow> (respond 200 (Row c), db')))"

definition PUT_api_upcoming_content_id ::
  "(jsval \<Rightarrow> int option) \<Rightarrow> string \<Rightarrow> jsval \<Rightarrow> db \<Rightarrow> response \<times> db" where
  "PUT_api_upcoming_content_id Date params_id req_body db =
     (let id' = parseInt params_id in
      case parse (partial (insertUpcomingContentSchema Date)) [] req_body of
        Inl errors \<Rightarrow> (respond 400 (ErrorDetails ''Invalid data'' errors), db)
      | Inr validatedData \<Rightarrow>
          (case updateUpcomingContent id' validatedData db of
             (Inl e, db') \<Rightarrow> (respond 500 (Error ''Failed to update upcoming content''), db')
           | (Inr None, db') \<Rightarrow> (respond 404 (Error ''Upcoming content not found''), db')
           | (Inr (Some c), db') \<Rightarrow> (respond 200 (Row c), db')))"

definition DELETE_api_upcoming_content_id :: "string \<Rightarrow> db \<Rightarrow> response \<times> db" where
  "DELETE_api_upcoming_content_id params_id db =
     (let id' = parseInt params_id in
      case deleteUpcomingContent id' db of
        (Inl e, db') \<Rightarrow> (respond 500 (Error ''Failed to delete upcoming content''), db')
      | (Inr success, db') \<Rightarrow>
          if \<not> success then (respond 404 (Error ''Upcoming content not found''), db')
          else (respond 200 SuccessTrue, db'))"

definition POST_api_analytics :: "int \<Rightarrow> jsval \<Rightarrow> db \<Rightarrow> response \<times> db" where
  "POST_api_analytics now req_body db =
     (case parse insertAnalyticsSchema [] req_body of
        Inl errors \<Rightarrow> (respond 400 (ErrorDetails ''Invalid data'' errors), db)
      | Inr validatedData \<Rightarrow>
          (case createAnalyticsEvent now validatedData db of
             (Inl e, db') \<Rightarrow> (respond 500 (Error ''Failed to create analytics event''), db')
           | (Inr ev, db') \<Rightarrow> (respond 200 (Row ev), db')))"

definition GET_api_analytics :: "db \<Rightarrow> response" where
  "GET_api_analytics db =
     (case getAnalytics db of
        Inl e \<Rightarrow> respond 500 (Error ''Failed to fetch analytics'')
      | Inr a \<Rightarrow> respond 200 (Summary a))"

section \<open>The content upload form\<close>

text \<open>
  \<open>ContentUploadForm.handleSubmit\<close>: the form refuses an empty genre list and a TV
  show without a positive episode count with a toast; otherwise it submits the
  payload. An empty text field is sent as null.
\<close>

record formData =
  title :: string
  type :: string
  genres :: "string list"
  duration :: string
  rating :: string
  status :: string
  description :: string
  thumbnailUrl :: string
  videoUrl :: string
  trailerUrl :: string
  releaseYear :: int
  director :: string
  writer :: string
  cast :: "string list"
  tags :: "string list"
  episodes :: "int option"

datatype submission = Toast string | Mutate jsval

definition orNull :: "string \<Rightarrow> jsval" where
  "orNull s = (if s = [] then JNull else JStr s)"

definition handleSubmit :: "formData \<Rightarrow> submission" where
  "handleSubmit fd =
     (if length (genres fd) = 0 then Toast ''Please add at least one genre''
      else if type fd = ''tv_show'' \<and>
              (case episodes fd of None \<Rightarrow> True | Some n \<Rightarrow> n = 0 \<or> n \<le> 0)
      then Toast ''Please enter the number of episodes for TV shows''
      else Mutate (JObj
        [(''title'', JStr (title fd)),
         (''type'', JStr (type fd)),
         (''genres'', JArr (map JStr (genres fd))),
         (''duration'', orNull (duration fd)),
         (''rating'', JStr (rating fd)),
         (''status'', JStr (status fd)),
         (''description'', orNull (description fd)),
         (''thumbnailUrl'', orNull (thumbnailUrl fd)),
         (''videoUrl'', orNull (videoUrl fd)),
         (''trailerUrl'', orNull (trailerUrl fd)),
         (''releaseYear'', JNum (releaseYear fd)),
         (''director'', orNull (director fd)),
         (''writer'', orNull (writer fd)),
         (''cast'', if length (cast fd) > 0 then JArr (map JStr (cast fd)) else JNull),
         (''tags'', if length (tags fd) > 0 then JArr (map JStr (tags fd)) else JNull),
         (''episodes'', if type fd = ''tv_show''
                        then (case episodes fd of None \<Rightarrow> JNull | Some n \<Rightarrow> JNum n)
                        else JNull)]))"

section \<open>Example states\<close>

text \<open>
  A store is well formed for a table when every row of the table has exactly the
  table's columns; the sequence is ahead of the rows when its next value is a fresh
  identifier that fits the identifier column.
\<close>

definition hasColumns :: "pg_table \<Rightarrow> db \<Rightarrow> bool" where
  "hasColumns t db = list_all (\<lambda>r. map fst r = map fst (columns t)) (rows (db (tableName t)))"

definition sequenceAhead :: "pg_table \<Rightarrow> db \<Rightarrow> bool" where
  "sequenceAhead t db =
     (int4 (lastId (db (tableName t)) + 1) \<and>
      list_all (\<lambda>r. col r ''id'' \<noteq> SInt (lastId (db (tableName t)) + 1))
               (rows (db (tableName t))))"

definition emptyDb :: db where
  "emptyDb = (\<lambda>t. \<lparr>rows = [], lastId = 0\<rparr>)"

definition examplePayload :: jsval where
  "examplePayload =
     JObj [(''title'', JStr ''X''), (''type'', JStr ''movie''),
           (''genres'', JArr [JStr ''Drama'']), (''rating'', JStr ''PG'')]"

definition publishedPayload :: jsval where
  "publishedPayload =
     JObj [(''title'', JStr ''Y''), (''type'', JStr ''tv_show''),
           (''genres'', JArr [JStr ''Drama'']), (''rating'', JStr ''PG''),
           (''status'', JStr ''published''), (''episodes'', JNum 8)]"

definition viewEvent :: jsval where
  "viewEvent = JObj [(''eventType'', JStr ''view''), (''contentId'', JNum 1)]"

definition playEvent :: jsval where
  "playEvent = JObj [(''eventType'', JStr ''play''), (''contentId'', JNum 2)]"

definition anonymousView :: jsval where
  "anonymousView = JObj [(''eventType'', JStr ''view'')]"

text \<open>Two content rows (the second one published) and three events, created through
  the routes at the times 1000 to 4000.\<close>

definition exampleDb :: db where
  "exampleDb =
     snd (POST_api_analytics 4000 anonymousView
       (snd (POST_api_analytics 3500 playEvent
         (snd (POST_api_analytics 3000 viewEvent
           (snd (POST_api_content 2000 publishedPayload
             (snd (POST_api_content 1000 examplePayload emptyDb)))))))))"

text \<open>A payload supplies a field when the field is defined in it; its numbers are in
  range when every number it holds at the top level fits a 32-bit integer column.\<close>

definition supplied :: "jsval \<Rightarrow> string \<Rightarrow> bool" where
  "supplied patch k = (getProp (ownProps patch) k \<noteq> JUndefined)"

definition numbersInRange :: "jsval \<Rightarrow> bool" where
  "numbersInRange v =
     list_all (\<lambda>kv. case snd kv of JNum n \<Rightarrow> int4 n | _ \<Rightarrow> True) (ownProps v)"




text \<open>Payloads that the upload form would refuse, payloads with values outside the
  documented variants, and payloads that name server-assigned fields.\<close>

definition emptyGenresPayload :: jsval where
  "emptyGenresPayload =
     JObj [(''title'', JStr ''X''), (''type'', JStr ''movie''),
           (''genres'', JArr []), (''rating'', JStr ''PG'')]"

definition tvShowWithoutEpisodes :: jsval where
  "tvShowWithoutEpisodes =
     JObj [(''title'', JStr ''X''), (''type'', JStr ''tv_show''),
           (''genres'', JArr [JStr ''Drama'']), (''rating'', JStr ''PG'')]"

definition unlistedVariants :: jsval where
  "unlistedVariants =
     JObj [(''title'', JStr ''X''), (''type'', JStr ''documentary''),
           (''genres'', JArr [JStr ''Drama'']), (''rating'', JStr ''PG''),
           (''status'', JStr ''archived'')]"

definition shareEvent :: jsval where
  "shareEvent = JObj [(''eventType'', JStr ''share'')]"

definition forgedPayload :: jsval where
  "forgedPayload =
     JObj [(''id'', JNum 77), (''views'', JNum 5), (''createdAt'', JStr ''2020-01-01''),
           (''title'', JStr ''X''), (''type'', JStr ''movie''),
           (''genres'', JArr [JStr ''Drama'']), (''rating'', JStr ''PG'')]"

definition forgedEvent :: jsval where
  "forgedEvent = JObj [(''id'', JNum 77), (''timestamp'', JStr ''2020-01-01''), (''eventType'', JStr ''view'')]"

text \<open>The content row that an insert gives when only the title, type, genres, rating
  and status are supplied.\<close>

definition contentRow ::
  "int \<Rightarrow> string \<Rightarrow> string \<Rightarrow> sqlval \<Rightarrow> string \<Rightarrow> string \<Rightarrow> int \<Rightarrow> row" where
  "contentRow i ti ty gs ra st now =
     [(''id'', SInt i), (''title'', SText ti), (''type'', SText ty),
       (''genres'', gs), (''duration'', SNull),
       (''rating'', SText ra), (''status'', SText st), (''views'', SInt 0),
       (''description'', SNull), (''thumbnailUrl'', SNull), (''videoUrl'', SNull),
       (''trailerUrl'', SNull), (''releaseYear'', SNull), (''director'', SNull),
       (''writer'', SNull), (''cast'', SNull), (''tags'', SNull), (''episodes'', SNull),
       (''createdAt'', STimestamp now), (''updatedAt'', STimestamp now)]"

text \<open>
  A date constructor for the examples: it parses one date string and nothing else.
  With it, an upcoming-content payload, the store after its creation, and two partial
  payloads.
\<close>

definition exampleDate :: "jsval \<Rightarrow> int option" where
  "exampleDate v = (if v = JStr ''2025-01-01'' then Some 1735689600000 else None)"

definition upcomingPayload :: jsval where
  "upcomingPayload =
     JObj [(''title'', JStr ''U''), (''type'', JStr ''movie''), (''genres'', JArr [JStr ''Drama'']),
           (''releaseDate'', JStr ''2025-01-01''), (''description'', JStr ''soon'')]"

definition upcomingDb :: db where
  "upcomingDb = snd (POST_api_upcoming_content exampleDate 1000 upcomingPayload emptyDb)"

definition statusPatch :: jsval where
  "statusPatch = JObj [(''status'', JStr ''published'')]"

definition titlePatch :: jsval where
  "titlePatch = JObj [(''title'', JStr ''Z'')]"

definition badDatePayload :: jsval where
  "badDatePayload =
     JObj [(''title'', JStr ''U''), (''type'', JStr ''movie''), (''genres'', JArr [JStr ''Drama'']),
           (''releaseDate'', JStr ''not-a-date''), (''description'', JStr ''soon'')]"

section \<open>Properties of the store's queries\<close>

lemma keyLe_total: "keyLe a b \<or> keyLe b a"
  by (cases a; cases b) auto

lemma keyLe_trans: "keyLe a b \<Longrightarrow> keyLe b c \<Longrightarrow> keyLe a c"
  by (cases a; cases b; cases c) auto

lemma set_insertBy: "set (insertBy le x xs) = insert x (set xs)"
  by (induction xs) auto




lemma sorted_insertBy:
  assumes total: "\<And>a b. le a b \<or> le b a" and trans: "\<And>a b c. le a b \<Longrightarrow> le b c \<Longrightarrow> le a c"
  shows "sorted_wrt le xs \<Longrightarrow> sorted_wrt le (insertBy le x xs)"
proof (induction xs)
  case Nil
  then show ?case by simp
next
  case (Cons y ys)
  show ?case
  proof (cases "le x y")
    case True
    with Cons.prems trans show ?thesis by auto
  next
    case False
    with total have "le y x" by blast
    with Cons False show ?thesis by (auto simp: set_insertBy)
  qed
qed

lemma sorted_orderBy:
  assumes total: "\<And>a b. le a b \<or> le b a" and trans: "\<And>a b c. le a b \<Longrightarrow> le b c \<Longrightarrow> le a c"
  shows "sorted_wrt le (orderBy le xs)"
proof (induction xs)
  case Nil
  show ?case by (simp add: orderBy_def)
next
  case (Cons x xs)
  have "orderBy le (x # xs) = insertBy le x (orderBy le xs)" by (simp add: orderBy_def)
  with Cons sorted_insertBy[of le, OF total trans] show ?case by simp
qed


lemma sorted_asc: "sorted_wrt (asc k) (orderBy (asc k) rs)"
  using keyLe_total keyLe_trans by (intro sorted_orderBy) (unfold asc_def, blast+)






lemma tableName_simps:
  "tableName content = ''content''" "tableName analytics = ''analytics''"
  "tableName upcomingContent = ''upcoming_content''" "tableName users = ''users''"
  by (simp_all add: content_def analytics_def upcomingContent_def users_def pgTable_def)

lemma exampleDb_content:
  "rows (exampleDb ''content'') =
     [[(''id'', SInt 1), (''title'', SText ''X''), (''type'', SText ''movie''),
       (''genres'', SArray [SText ''Drama'']), (''duration'', SNull),
       (''rating'', SText ''PG''), (''status'', SText ''draft''), (''views'', SInt 0),
       (''description'', SNull), (''thumbnailUrl'', SNull), (''videoUrl'', SNull),
       (''trailerUrl'', SNull), (''releaseYear'', SNull), (''director'', SNull),
       (''writer'', SNull), (''cast'', SNull), (''tags'', SNull), (''episodes'', SNull),
       (''createdAt'', STimestamp 1000), (''updatedAt'', STimestamp 1000)],
      [(''id'', SInt 2), (''title'', SText ''Y''), (''type'', SText ''tv_show''),
       (''genres'', SArray [SText ''Drama'']), (''duration'', SNull),
       (''rating'', SText ''PG''), (''status'', SText ''published''), (''views'', SInt 0),
       (''description'', SNull), (''thumbnailUrl'', SNull), (''videoUrl'', SNull),
       (''trailerUrl'', SNull), (''releaseYear'', SNull), (''director'', SNull),
       (''writer'', SNull), (''cast'', SNull), (''tags'', SNull), (''episodes'', SInt 8),
       (''createdAt'', STimestamp 2000), (''updatedAt'', STimestamp 2000)]]"
  by code_simp


section \<open>Properties of validation and of row building\<close>

lemma mergeResults_map_Inr: "mergeResults (map Inr vs) = Inr vs"
  by (induction vs) auto

lemma mergeResults_Inr_D: "mergeResults rs = Inr vs \<Longrightarrow> rs = map Inr vs"
proof (induction rs arbitrary: vs)
  case Nil
  then show ?case by simp
next
  case (Cons r rs)
  then show ?case by (cases r) (auto split: sum.splits)
qed

lemma mergeResults_Inr: "mergeResults rs = Inr vs \<longleftrightarrow> rs = map Inr vs"
  using mergeResults_map_Inr mergeResults_Inr_D by metis

lemma mergeResults_Inl:
  "mergeResults rs = Inl es \<Longrightarrow> e \<in> set es \<Longrightarrow> \<exists>es'. Inl es' \<in> set rs \<and> e \<in> set es'"
proof (induction rs arbitrary: es)
  case Nil
  then show ?case by simp
next
  case (Cons r rs)
  show ?case
  proof (cases r)
    case (Inl e')
    with Cons show ?thesis by (fastforce split: sum.splits)
  next
    case (Inr v)
    with Cons show ?thesis by (fastforce split: sum.splits)
  qed
qed

lemma mergeResults_has_Inl: "Inl e \<in> set rs \<Longrightarrow> \<exists>es. mergeResults rs = Inl es"
proof (induction rs)
  case Nil
  then show ?case by simp
next
  case (Cons r rs)
  then show ?case by (cases r) (auto split: sum.splits)
qed

lemma sequenceSum_map_Inr: "sequenceSum (map Inr vs) = Inr vs"
  by (induction vs) auto

lemma sequenceSum_Inr_D: "sequenceSum rs = Inr vs \<Longrightarrow> rs = map Inr vs"
proof (induction rs arbitrary: vs)
  case Nil
  then show ?case by simp
next
  case (Cons r rs)
  then show ?case by (cases r) (auto split: sum.splits)
qed

lemma sequenceSum_Inr: "sequenceSum rs = Inr vs \<longleftrightarrow> rs = map Inr vs"
  using sequenceSum_map_Inr sequenceSum_Inr_D by metis

lemma sequenceSum_has_Inl: "Inl e \<in> set rs \<Longrightarrow> \<exists>e'. sequenceSum rs = Inl e'"
proof (induction rs)
  case Nil
  then show ?case by simp
next
  case (Cons r rs)
  then show ?case by (cases r) (auto split: sum.splits)
qed

text \<open>Every issue of a failed parse lies at or below the path the parse started from.\<close>

lemma parse_issue_path:
  "parse t p v = Inl es \<Longrightarrow> e \<in> set es \<Longrightarrow> take (length p) (path e) = p"
proof (induction t p v arbitrary: es e rule: parse.induct)
  case (1 p v)
  then show ?case by (auto simp: invalid_type_def split: jsval.splits)
next
  case (2 p v)
  then show ?case by (auto simp: invalid_type_def split: jsval.splits)
next
  case (3 p v)
  then show ?case by (auto simp: invalid_type_def split: jsval.splits option.splits)
next
  case (4 p v)
  then show ?case by (auto split: if_splits)
next
  case (5 t p v)
  show ?case
  proof (cases v)
    case (JArr xs)
    with "5.prems" have m: "mergeResults (map (\<lambda>(i, x). parse t (p @ [Index i]) x) (enumerate 0 xs)) = Inl es"
      by (simp split: sum.splits)
    from mergeResults_Inl[OF m "5.prems"(2)] obtain es' where
      "Inl es' \<in> set (map (\<lambda>(i, x). parse t (p @ [Index i]) x) (enumerate 0 xs))" and e: "e \<in> set es'"
      by blast
    then obtain ix where ix': "ix \<in> set (enumerate 0 xs)"
      and p0: "Inl es' = (case ix of (i, x) \<Rightarrow> parse t (p @ [Index i]) x)" by auto
    obtain i x where ixeq: "ix = (i, x)" by (cases ix)
    from ix' ixeq have ix: "(i, x) \<in> set (enumerate 0 xs)" by simp
    from p0 ixeq have p': "parse t (p @ [Index i]) x = Inl es'" by simp
    from "5.IH"[OF JArr ix refl p' e] have "take (length (p @ [Index i])) (path e) = p @ [Index i]" .
    then have "take (length p) (take (length (p @ [Index i])) (path e)) = take (length p) (p @ [Index i])"
      by simp
    then show ?thesis by (simp add: min_def)
  qed (use "5.prems" in \<open>auto simp: invalid_type_def\<close>)
next
  case (6 t p v)
  then show ?case by (auto split: if_splits)
next
  case (7 t p v)
  then show ?case by (auto split: if_splits)
next
  case (8 sh p v)
  show ?case
  proof (cases v)
    case (JObj kvs)
    with "8.prems" have m: "mergeResults
                  (map (\<lambda>kt. map_sum id (Pair (fst kt))
                                (parse (snd kt) (p @ [Key (fst kt)]) (getProp kvs (fst kt))))
                       sh) = Inl es"
      by (simp split: sum.splits)
    from mergeResults_Inl[OF m "8.prems"(2)] obtain es' where
      "Inl es' \<in> set (map (\<lambda>kt. map_sum id (Pair (fst kt))
                                (parse (snd kt) (p @ [Key (fst kt)]) (getProp kvs (fst kt)))) sh)"
      and e: "e \<in> set es'"
      by blast
    then obtain kt where kt: "kt \<in> set sh" and p': "map_sum id (Pair (fst kt)) (parse (snd kt) (p @ [Key (fst kt)]) (getProp kvs (fst kt))) = Inl es'"
      by auto
    from p' have p'': "parse (snd kt) (p @ [Key (fst kt)]) (getProp kvs (fst kt)) = Inl es'"
      by (cases "parse (snd kt) (p @ [Key (fst kt)]) (getProp kvs (fst kt))") auto
    from "8.IH"[OF JObj kt p'' e] have "take (length (p @ [Key (fst kt)])) (path e) = p @ [Key (fst kt)]" .
    then have "take (length p) (take (length (p @ [Key (fst kt)])) (path e)) = take (length p) (p @ [Key (fst kt)])"
      by simp
    then show ?thesis by (simp add: min_def)
  qed (use "8.prems" in \<open>auto simp: invalid_type_def\<close>)
next
  case (9 t f p v)
  then show ?case by (auto split: sum.splits)
qed


lemma getProp_notin: "k \<notin> fst ` set kvs \<Longrightarrow> getProp kvs k = JUndefined"
  by (induction kvs) auto

lemma getProp_filter_defined:
  "distinct (map fst kvs) \<Longrightarrow>
   getProp (filter (\<lambda>kv. snd kv \<noteq> JUndefined) kvs) k = getProp kvs k"
proof (induction kvs)
  case Nil
  show ?case by simp
next
  case (Cons kv kvs)
  obtain k' v' where kv: "kv = (k', v')" by (cases kv)
  from Cons.prems kv have notin: "k' \<notin> fst ` set kvs" and d: "distinct (map fst kvs)" by auto
  show ?case
  proof (cases "k' = k")
    case True
    with notin have "getProp kvs k = JUndefined" by (simp add: getProp_notin)
    with Cons.IH[OF d] kv True show ?thesis by simp
  next
    case False
    with Cons.IH[OF d] kv show ?thesis by simp
  qed
qed

lemma getProp_map_of:
  "getProp kvs k = (case map_of kvs k of None \<Rightarrow> JUndefined | Some v \<Rightarrow> v)"
  by (induction kvs) auto

lemma keyed_results:
  assumes "map g xs = map Inr ys" and key: "\<And>x y. g x = Inr y \<Longrightarrow> fst y = fst x"
  shows "map fst ys = map fst xs"
  using assms(1)
proof (induction xs arbitrary: ys)
  case Nil
  then show ?case by simp
next
  case (Cons x xs)
  then obtain y ys' where ys: "ys = y # ys'" by (cases ys) auto
  from Cons.prems[unfolded ys] have hd: "g x = Inr y" and tl: "map g xs = map Inr ys'"
    by (simp_all only: list.map list.inject)
  from key[OF hd] Cons.IH[OF tl] ys show ?case by simp
qed

lemma keyed_result:
  assumes "map g xs = map Inr ys" and key: "\<And>x y. g x = Inr y \<Longrightarrow> fst y = fst x"
    and "distinct (map fst xs)" and "x \<in> set xs"
  shows "\<exists>w. g x = Inr (fst x, w) \<and> map_of ys (fst x) = Some w"
  using assms(1,3,4)
proof (induction xs arbitrary: ys)
  case Nil
  then show ?case by simp
next
  case (Cons x' xs)
  then obtain y ys' where ys: "ys = y # ys'" by (cases ys) auto
  from Cons.prems(1)[unfolded ys] have hd: "g x' = Inr y" and tl: "map g xs = map Inr ys'"
    by (simp_all only: list.map list.inject)
  from key[OF hd] have y: "y = (fst x', snd y)" by (cases y) simp
  show ?case
  proof (cases "x = x'")
    case True
    with hd y ys show ?thesis by (metis map_of_Cons_code(2))
  next
    case False
    with Cons.prems have mem: "x \<in> set xs" and d: "distinct (map fst xs)"
      and ne: "fst x' \<noteq> fst x" by (auto simp: image_iff)
    from Cons.IH[OF tl d mem] obtain w where "g x = Inr (fst x, w)" "map_of ys' (fst x) = Some w"
      by blast
    with ys y ne show ?thesis by (metis map_of_Cons_code(2))
  qed
qed

lemma field_key:
  "map_sum id (Pair (fst kt)) (f kt) = Inr y \<Longrightarrow> fst y = fst kt"
  by (cases "f kt") auto

lemma field_results:
  "map (\<lambda>kt. map_sum id (Pair (fst kt)) (f kt)) sh = map Inr pairs \<Longrightarrow>
   map fst pairs = map fst sh"
  by (rule keyed_results) (auto dest: field_key)

lemma field_result:
  assumes "map (\<lambda>kt. map_sum id (Pair (fst kt)) (f kt)) sh = map Inr pairs"
    and "distinct (map fst sh)" and "kt \<in> set sh"
  shows "f kt = Inr (getProp pairs (fst kt))"
proof -
  from keyed_result[OF assms(1) _ assms(2,3)] obtain w where
    w: "map_sum id (Pair (fst kt)) (f kt) = Inr (fst kt, w)" and m: "map_of pairs (fst kt) = Some w"
    by (auto dest: field_key)
  from w have "f kt = Inr w" by (cases "f kt") auto
  with m show ?thesis by (simp add: getProp_map_of)
qed

lemma parse_object_Inr:
  assumes "parse (ZObject sh) p v = Inr out"
  obtains kvs pairs where "v = JObj kvs"
    and "map (\<lambda>kt. map_sum id (Pair (fst kt))
                     (parse (snd kt) (p @ [Key (fst kt)]) (getProp kvs (fst kt)))) sh = map Inr pairs"
    and "out = JObj (filter (\<lambda>kv. snd kv \<noteq> JUndefined) pairs)"
proof (cases v)
  case (JObj kvs)
  with assms obtain pairs where
    "mergeResults (map (\<lambda>kt. map_sum id (Pair (fst kt))
                     (parse (snd kt) (p @ [Key (fst kt)]) (getProp kvs (fst kt)))) sh) = Inr pairs"
    and "out = JObj (filter (\<lambda>kv. snd kv \<noteq> JUndefined) pairs)"
    by (auto split: sum.splits)
  with JObj that show ?thesis by (simp add: mergeResults_Inr)
qed (use assms in auto)

text \<open>A successful parse of an object has parsed every field of the shape; the
  result holds the parsed values and no other property.\<close>

lemma parse_object_field:
  assumes ok: "parse (ZObject sh) p v = Inr out" and d: "distinct (map fst sh)"
    and kt: "(k, t) \<in> set sh"
  shows "parse t (p @ [Key k]) (getProp (ownProps v) k) = Inr (getProp (ownProps out) k)"
proof -
  from ok obtain kvs pairs where v: "v = JObj kvs"
    and m: "map (\<lambda>kt. map_sum id (Pair (fst kt))
                     (parse (snd kt) (p @ [Key (fst kt)]) (getProp kvs (fst kt)))) sh = map Inr pairs"
    and out: "out = JObj (filter (\<lambda>kv. snd kv \<noteq> JUndefined) pairs)"
    by (rule parse_object_Inr)
  from field_results[OF m] d have dp: "distinct (map fst pairs)" by simp
  from field_result[OF m d kt]
  have "parse t (p @ [Key k]) (getProp kvs k) = Inr (getProp pairs k)" by simp
  with v out dp show ?thesis by (simp add: getProp_filter_defined)
qed

lemma parse_object_other:
  assumes ok: "parse (ZObject sh) p v = Inr out" and k: "k \<notin> fst ` set sh"
  shows "getProp (ownProps out) k = JUndefined"
proof -
  from ok obtain kvs pairs where
    m: "map (\<lambda>kt. map_sum id (Pair (fst kt))
                     (parse (snd kt) (p @ [Key (fst kt)]) (getProp kvs (fst kt)))) sh = map Inr pairs"
    and out: "out = JObj (filter (\<lambda>kv. snd kv \<noteq> JUndefined) pairs)"
    by (rule parse_object_Inr)
  from field_results[OF m] k have "k \<notin> fst ` set pairs" by (metis list.set_map)
  then have "k \<notin> fst ` set (filter (\<lambda>kv. snd kv \<noteq> JUndefined) pairs)" by auto
  with out show ?thesis by (simp add: getProp_notin)
qed

lemma buildRow_key:
  "(let v = getProp vals (fst kc) in
      if v = JUndefined then Inr (fst kc, evalDefault now nv (snd kc))
      else map_sum id (Pair (fst kc)) (mapToDriverValue (colType (snd kc)) v)) = Inr y \<Longrightarrow>
   fst y = fst kc"
  by (cases "mapToDriverValue (colType (snd kc)) (getProp vals (fst kc))")
     (auto simp: Let_def split: if_splits)

lemma buildRow_keys:
  "buildRow now nv cols vals = Inr r \<Longrightarrow> map fst r = map fst cols"
  unfolding buildRow_def sequenceSum_Inr by (rule keyed_results) (auto dest: buildRow_key)

text \<open>A column whose value is not supplied gets its default.\<close>

lemma buildRow_default:
  assumes "buildRow now nv cols vals = Inr r" and "distinct (map fst cols)"
    and "(k, c) \<in> set cols" and undef: "getProp vals k = JUndefined"
  shows "col r k = evalDefault now nv c"
proof -
  from assms(1) have m: "map (\<lambda>kc. let v = getProp vals (fst kc) in
                   if v = JUndefined then Inr (fst kc, evalDefault now nv (snd kc))
                   else map_sum id (Pair (fst kc)) (mapToDriverValue (colType (snd kc)) v))
            cols = map Inr r"
    unfolding buildRow_def sequenceSum_Inr .
  have "\<exists>w. (let v = getProp vals (fst (k, c)) in
                   if v = JUndefined then Inr (fst (k, c), evalDefault now nv (snd (k, c)))
                   else map_sum id (Pair (fst (k, c))) (mapToDriverValue (colType (snd (k, c))) v))
               = Inr (fst (k, c), w) \<and> map_of r (fst (k, c)) = Some w"
    by (rule keyed_result[OF m buildRow_key assms(2,3)])
  then obtain w where
    w: "(let v = getProp vals k in
                   if v = JUndefined then Inr (k, evalDefault now nv c)
                   else map_sum id (Pair k) (mapToDriverValue (colType c) v)) = Inr (k, w)"
    and mo: "map_of r k = Some w"
    unfolding fst_conv snd_conv by blast
  from w undef have "w = evalDefault now nv c" by simp
  with mo show ?thesis by (simp add: col_def)
qed

text \<open>A column whose value is supplied holds that value, as the driver maps it.\<close>

lemma buildRow_supplied:
  assumes "buildRow now nv cols vals = Inr r" and "distinct (map fst cols)"
    and "(k, c) \<in> set cols" and def: "getProp vals k \<noteq> JUndefined"
  shows "mapToDriverValue (colType c) (getProp vals k) = Inr (col r k)"
proof -
  from assms(1) have m: "map (\<lambda>kc. let v = getProp vals (fst kc) in
                   if v = JUndefined then Inr (fst kc, evalDefault now nv (snd kc))
                   else map_sum id (Pair (fst kc)) (mapToDriverValue (colType (snd kc)) v))
            cols = map Inr r"
    unfolding buildRow_def sequenceSum_Inr .
  have "\<exists>w. (let v = getProp vals (fst (k, c)) in
                   if v = JUndefined then Inr (fst (k, c), evalDefault now nv (snd (k, c)))
                   else map_sum id (Pair (fst (k, c))) (mapToDriverValue (colType (snd (k, c))) v))
               = Inr (fst (k, c), w) \<and> map_of r (fst (k, c)) = Some w"
    by (rule keyed_result[OF m buildRow_key assms(2,3)])
  then obtain w where
    w: "(let v = getProp vals k in
                   if v = JUndefined then Inr (k, evalDefault now nv c)
                   else map_sum id (Pair k) (mapToDriverValue (colType c) v)) = Inr (k, w)"
    and mo: "map_of r k = Some w"
    unfolding fst_conv snd_conv by blast
  from w def have "mapToDriverValue (colType c) (getProp vals k) = Inr w"
    by (cases "mapToDriverValue (colType c) (getProp vals k)") auto
  with mo show ?thesis by (simp add: col_def)
qed

section \<open>Properties of the tables and of insertion\<close>

lemmas table_defs = content_def analytics_def upcomingContent_def users_def pgTable_def
  serial_def integer_def pg_text_def timestamp_def json_def notNull_def withDefault_def
  defaultNow_def primaryKey_def unique_def array_def references_def column_def

lemmas schema_defs = insertContentSchema_def insertAnalyticsSchema_def
  insertUpcomingContentSchema_def createInsertSchema_def columnSchema_def hasDefault_def
  omit_def pick_def zodExtend_def partial_def

lemma insertReturning_ok:
  assumes "buildRow now (lastId (db (tableName t)) + 1) (columns t) vals = Inr r"
    and "usesSequence (columns t) vals"
    and "int4 (lastId (db (tableName t)) + 1)"
    and "checkConstraints (columns t) db (rows (db (tableName t))) r = None"
  shows "insertReturning t now vals db =
           (Inr r, db(tableName t := \<lparr>rows = rows (db (tableName t)) @ [r],
                                      lastId = lastId (db (tableName t)) + 1\<rparr>))"
  using assms by (cases "db (tableName t)") (simp add: insertReturning_def Let_def)

lemma content_unique:
  "uniqueViolations (columns content) others r =
     (if col r ''id'' \<noteq> SNull \<and> list_ex (\<lambda>r'. col r' ''id'' = col r ''id'') others
      then [''id''] else [])"
  by (simp add: uniqueViolations_def table_defs)

lemma content_foreign: "foreignKeyViolations (columns content) db r = []"
  by (simp add: foreignKeyViolations_def table_defs)

lemma content_constraints:
  assumes "sequenceAhead content db" and "col r ''id'' = SInt (lastId (db ''content'') + 1)"
    and "notNullViolations (columns content) r = []"
  shows "checkConstraints (columns content) db (rows (db ''content'')) r = None"
proof -
  from assms(1,2) have "\<not> list_ex (\<lambda>r'. col r' ''id'' = col r ''id'') (rows (db ''content''))"
    by (simp add: sequenceAhead_def tableName_simps list_ex_iff list_all_iff)
  with assms(3) show ?thesis
    by (simp add: checkConstraints_def content_unique content_foreign)
qed

lemma parse_examplePayload: "parse insertContentSchema [] examplePayload = Inr examplePayload"
  by code_simp

lemma buildRow_examplePayload:
  "buildRow now nv (columns content) (ownProps examplePayload) =
     Inr [(''id'', SInt nv), (''title'', SText ''X''), (''type'', SText ''movie''),
       (''genres'', SArray [SText ''Drama'']), (''duration'', SNull),
       (''rating'', SText ''PG''), (''status'', SText ''draft''), (''views'', SInt 0),
       (''description'', SNull), (''thumbnailUrl'', SNull), (''videoUrl'', SNull),
       (''trailerUrl'', SNull), (''releaseYear'', SNull), (''director'', SNull),
       (''writer'', SNull), (''cast'', SNull), (''tags'', SNull), (''episodes'', SNull),
       (''createdAt'', STimestamp now), (''updatedAt'', STimestamp now)]"
  by (simp add: buildRow_def examplePayload_def table_defs evalDefault_def)


lemma content_usesSequence:
  "usesSequence (columns content) vals = (getProp vals ''id'' = JUndefined)"
  by (simp add: usesSequence_def table_defs)

lemma content_distinct: "distinct (map fst (columns content))"
  by (simp add: table_defs)

lemma content_id_column: "(''id'', primaryKey (serial ''id'')) \<in> set (columns content)"
  by (simp add: table_defs)

lemma createContent_ok:
  assumes b: "buildRow now (lastId (db ''content'') + 1) (columns content) (ownProps v) = Inr r"
    and noid: "getProp (ownProps v) ''id'' = JUndefined"
    and nn: "notNullViolations (columns content) r = []"
    and ahead: "sequenceAhead content db"
  shows "createContent now v db =
           (Inr r, db(''content'' := \<lparr>rows = rows (db ''content'') @ [r],
                                     lastId = lastId (db ''content'') + 1\<rparr>))"
proof -
  from buildRow_default[OF b content_distinct content_id_column noid]
  have idr: "col r ''id'' = SInt (lastId (db ''content'') + 1)"
    by (simp add: evalDefault_def primaryKey_def serial_def column_def)
  from ahead have i4: "int4 (lastId (db (tableName content)) + 1)"
    by (simp add: sequenceAhead_def)
  from insertReturning_ok[of now db content "ownProps v" r] b noid i4
    content_constraints[OF ahead idr nn]
  show ?thesis by (simp add: createContent_def tableName_simps content_usesSequence)
qed

lemma sequenceAhead_emptyDb: "sequenceAhead t emptyDb"
  by (simp add: sequenceAhead_def emptyDb_def int4_def)

lemma referencing_content:
  "referencing content k = (if k = ''id'' then [(''analytics'', ''contentId'')] else [])"
  by (simp add: referencing_def schemaTables_def table_defs)

section \<open>Properties of updates\<close>

lemma getProp_setProp: "getProp (setProp kvs k v) k' = (if k' = k then v else getProp kvs k')"
  by (induction kvs) auto

lemma map_of_assign:
  "map_of (assign as r) k =
     map_option (\<lambda>v. case map_of as k of Some v' \<Rightarrow> v' | None \<Rightarrow> v) (map_of r k)"
  unfolding assign_def by (induction r) auto

lemma col_assign_other: "map_of as k = None \<Longrightarrow> col (assign as r) k = col r k"
  by (cases "map_of r k") (simp_all add: col_def map_of_assign)

lemma col_assign_set:
  "map_of as k = Some w \<Longrightarrow> k \<in> fst ` set r \<Longrightarrow> col (assign as r) k = w"
proof -
  assume a: "map_of as k = Some w" and "k \<in> fst ` set r"
  then obtain v where "map_of r k = Some v"
    by (metis domD domI weak_map_of_SomeI dom_map_of_conv_image_fst)
  with a show ?thesis by (simp add: col_def map_of_assign)
qed

lemma assignment_key:
  "map_sum id (Pair (fst kc)) (mapToDriverValue (colType (snd kc)) (getProp vals (fst kc))) = Inr y
   \<Longrightarrow> fst y = fst kc"
  by (cases "mapToDriverValue (colType (snd kc)) (getProp vals (fst kc))") auto

lemma assignments_keys:
  assumes "assignments cols vals = Inr as"
  shows "map fst as = map fst (filter (\<lambda>kc. getProp vals (fst kc) \<noteq> JUndefined) cols)"
  using assms unfolding assignments_def sequenceSum_Inr
  by (rule keyed_results) (rule assignment_key)

lemma assignments_supplied:
  assumes a: "assignments cols vals = Inr as" and d: "distinct (map fst cols)"
    and kc: "(k, c) \<in> set cols" and s: "getProp vals k \<noteq> JUndefined"
  shows "\<exists>w. mapToDriverValue (colType c) (getProp vals k) = Inr w \<and> map_of as k = Some w"
proof -
  let ?xs = "filter (\<lambda>kc. getProp vals (fst kc) \<noteq> JUndefined) cols"
  from a have m: "map (\<lambda>kc. map_sum id (Pair (fst kc))
                     (mapToDriverValue (colType (snd kc)) (getProp vals (fst kc)))) ?xs = map Inr as"
    unfolding assignments_def sequenceSum_Inr .
  from d have d': "distinct (map fst ?xs)" by (rule distinct_map_filter)
  from kc s have mem: "(k, c) \<in> set ?xs" by simp
  have "\<exists>w. map_sum id (Pair (fst (k, c)))
                     (mapToDriverValue (colType (snd (k, c))) (getProp vals (fst (k, c))))
             = Inr (fst (k, c), w) \<and> map_of as (fst (k, c)) = Some w"
    by (rule keyed_result[OF m assignment_key d' mem])
  then obtain w where w: "map_sum id (Pair k) (mapToDriverValue (colType c) (getProp vals k)) = Inr (k, w)"
    and mo: "map_of as k = Some w"
    unfolding fst_conv snd_conv by blast
  from w have "mapToDriverValue (colType c) (getProp vals k) = Inr w"
    by (cases "mapToDriverValue (colType c) (getProp vals k)") auto
  with mo show ?thesis by blast
qed

lemma assignments_not_supplied:
  assumes a: "assignments cols vals = Inr as" and s: "getProp vals k = JUndefined"
  shows "map_of as k = None"
proof -
  from assignments_keys[OF a] s have "k \<notin> set (map fst as)" by auto
  then show ?thesis by (simp add: map_of_eq_None_iff)
qed

lemma updateSetWhereReturning_Inr_D:
  assumes "updateSetWhereReturning t vals id' db = (Inr rs, db')"
  obtains as idv where "assignments (columns t) vals = Inr as" and "as \<noteq> []"
    and "idParam id' = Inr idv"
    and "rs = map (assign as) (filter (\<lambda>r. col r ''id'' = idv) (rows (db (tableName t))))"
    and "db' = db(tableName t := (db (tableName t))
            \<lparr>rows := map (\<lambda>r. if col r ''id'' = idv then assign as r else r)
                          (rows (db (tableName t)))\<rparr>)"
  using assms unfolding updateSetWhereReturning_def Let_def
  by (auto split: sum.splits if_splits option.splits)

lemma firstOrUndefined_map_filter:
  "firstOrUndefined (map f (filter P xs)) = Some y \<Longrightarrow> \<exists>x \<in> set xs. P x \<and> y = f x"
  by (induction xs) (auto split: if_splits)

lemma firstOrUndefined_None: "firstOrUndefined xs = None \<longleftrightarrow> xs = []"
  by (cases xs) auto

lemma content_updatedAt_column:
  "(''updatedAt'', notNull (defaultNow (timestamp ''updated_at''))) \<in> set (columns content)"
  by (simp add: table_defs)

lemma key_of_row:
  "(k, c) \<in> set cols \<Longrightarrow> map fst r = map fst cols \<Longrightarrow> k \<in> fst ` set r"
  by (metis image_eqI fst_conv list.set_map)

lemma rewritten_row_mem:
  "r \<in> set rs \<Longrightarrow> P r \<Longrightarrow> f r \<in> set (map (\<lambda>r. if P r then f r else r) rs)"
  by (induction rs) auto

lemma apfst_map_sum_Inr:
  assumes "apfst (map_sum id f) x = (Inr res, db')"
  obtains rs where "x = (Inr rs, db')" and "res = f rs"
proof (cases x)
  case (Pair a b)
  with assms show ?thesis by (cases a) (auto intro: that)
qed

lemma updateContent_Inr_D:
  assumes "updateContent now id' patch db = (Inr res, db')"
  obtains as idv where
    "assignments (columns content) (setProp (ownProps patch) ''updatedAt'' (JDate (Some now))) = Inr as"
    and "idParam id' = Inr idv"
    and "res = firstOrUndefined (map (assign as) (filter (\<lambda>r. col r ''id'' = idv) (rows (db ''content''))))"
    and "db' = db(''content'' := (db ''content'')
            \<lparr>rows := map (\<lambda>r. if col r ''id'' = idv then assign as r else r)
                          (rows (db ''content''))\<rparr>)"
proof -
  from assms obtain rs where
    u: "updateSetWhereReturning content (setProp (ownProps patch) ''updatedAt'' (JDate (Some now))) id' db
          = (Inr rs, db')"
    and res: "res = firstOrUndefined rs"
    unfolding updateContent_def by (rule apfst_map_sum_Inr)
  from u res that show ?thesis
    by (elim updateSetWhereReturning_Inr_D) (simp add: tableName_simps)
qed

lemma updateUpcomingContent_Inr_D:
  assumes "updateUpcomingContent id' patch db = (Inr res, db')"
  obtains as idv where
    "assignments (columns upcomingContent) (ownProps patch) = Inr as"
    and "idParam id' = Inr idv"
    and "res = firstOrUndefined (map (assign as) (filter (\<lambda>r. col r ''id'' = idv) (rows (db ''upcoming_content''))))"
    and "db' = db(''upcoming_content'' := (db ''upcoming_content'')
            \<lparr>rows := map (\<lambda>r. if col r ''id'' = idv then assign as r else r)
                          (rows (db ''upcoming_content''))\<rparr>)"
proof -
  from assms obtain rs where
    u: "updateSetWhereReturning upcomingContent (ownProps patch) id' db = (Inr rs, db')"
    and res: "res = firstOrUndefined rs"
    unfolding updateUpcomingContent_def by (rule apfst_map_sum_Inr)
  from u res that show ?thesis
    by (elim updateSetWhereReturning_Inr_D) (simp add: tableName_simps)
qed

lemma updateContent_frame:
  assumes wf: "hasColumns content db"
    and u: "updateContent now id' patch db = (Inr res, db')"
  shows "(res = None \<longrightarrow>
            (\<forall>r \<in> set (rows (db ''content'')). idParam id' \<noteq> Inr (col r ''id'')) \<and>
            rows (db' ''content'') = rows (db ''content'')) \<and>
         (\<forall>r'. res = Some r' \<longrightarrow>
            (\<exists>r \<in> set (rows (db ''content'')).
               idParam id' = Inr (col r ''id'') \<and>
               (\<forall>k. \<not> supplied patch k \<and> k \<noteq> ''updatedAt'' \<longrightarrow> col r' k = col r k) \<and>
               (\<forall>k c. (k, c) \<in> set (columns content) \<and> supplied patch k \<and> k \<noteq> ''updatedAt'' \<longrightarrow>
                   mapToDriverValue (colType c) (getProp (ownProps patch) k) = Inr (col r' k)) \<and>
               col r' ''updatedAt'' = STimestamp now \<and>
               r' \<in> set (rows (db' ''content''))))"
proof -
  let ?vals = "setProp (ownProps patch) ''updatedAt'' (JDate (Some now))"
  from u obtain as idv where as: "assignments (columns content) ?vals = Inr as"
    and idv: "idParam id' = Inr idv"
    and res: "res = firstOrUndefined (map (assign as) (filter (\<lambda>r. col r ''id'' = idv) (rows (db ''content''))))"
    and db': "db' = db(''content'' := (db ''content'')
            \<lparr>rows := map (\<lambda>r. if col r ''id'' = idv then assign as r else r)
                          (rows (db ''content''))\<rparr>)"
    by (rule updateContent_Inr_D)
  show ?thesis
  proof (intro conjI allI impI)
    assume "res = None"
    with res have "firstOrUndefined (map (assign as) (filter (\<lambda>r. col r ''id'' = idv) (rows (db ''content'')))) = None"
      by simp
    then have none: "filter (\<lambda>r. col r ''id'' = idv) (rows (db ''content'')) = []"
      by (simp add: firstOrUndefined_None)
    then have no: "\<forall>r \<in> set (rows (db ''content'')). col r ''id'' \<noteq> idv"
      by (simp add: filter_empty_conv)
    with idv show "\<forall>r \<in> set (rows (db ''content'')). idParam id' \<noteq> Inr (col r ''id'')" by auto
    from no have "map (\<lambda>r. if col r ''id'' = idv then assign as r else r) (rows (db ''content''))
        = rows (db ''content'')"
      by (simp add: map_idI)
    with db' show "rows (db' ''content'') = rows (db ''content'')" by simp
  next
    fix r' assume "res = Some r'"
    with res have "firstOrUndefined (map (assign as) (filter (\<lambda>r. col r ''id'' = idv) (rows (db ''content'')))) = Some r'"
      by simp
    from firstOrUndefined_map_filter[OF this]
    obtain r where r: "r \<in> set (rows (db ''content''))" and hit: "col r ''id'' = idv"
      and r': "r' = assign as r"
      by blast
    from wf r have keys: "map fst r = map fst (columns content)"
      by (simp add: hasColumns_def tableName_simps list_all_iff)
    have frame: "\<forall>k. \<not> supplied patch k \<and> k \<noteq> ''updatedAt'' \<longrightarrow> col r' k = col r k"
    proof (intro allI impI)
      fix k assume "\<not> supplied patch k \<and> k \<noteq> ''updatedAt''"
      then have "getProp ?vals k = JUndefined" by (simp add: supplied_def getProp_setProp)
      from assignments_not_supplied[OF as this] r' show "col r' k = col r k"
        by (simp add: col_assign_other)
    qed
    have new: "\<forall>k c. (k, c) \<in> set (columns content) \<and> supplied patch k \<and> k \<noteq> ''updatedAt'' \<longrightarrow>
                   mapToDriverValue (colType c) (getProp (ownProps patch) k) = Inr (col r' k)"
    proof (intro allI impI)
      fix k c assume a: "(k, c) \<in> set (columns content) \<and> supplied patch k \<and> k \<noteq> ''updatedAt''"
      then have s: "getProp ?vals k \<noteq> JUndefined" and e: "getProp ?vals k = getProp (ownProps patch) k"
        by (simp_all add: supplied_def getProp_setProp)
      from a have kc: "(k, c) \<in> set (columns content)" by simp
      from assignments_supplied[OF as content_distinct kc s] e obtain w where
        w: "mapToDriverValue (colType c) (getProp (ownProps patch) k) = Inr w" and mo: "map_of as k = Some w"
        by auto
      from kc keys have "k \<in> fst ` set r" by (rule key_of_row)
      from col_assign_set[OF mo this] w r'
      show "mapToDriverValue (colType c) (getProp (ownProps patch) k) = Inr (col r' k)" by simp
    qed
    have upd: "col r' ''updatedAt'' = STimestamp now"
    proof -
      have s: "getProp ?vals ''updatedAt'' \<noteq> JUndefined" by (simp add: getProp_setProp)
      from assignments_supplied[OF as content_distinct content_updatedAt_column s] obtain w where
        w: "mapToDriverValue (colType (notNull (defaultNow (timestamp ''updated_at'')))) (getProp ?vals ''updatedAt'') = Inr w"
        and mo: "map_of as ''updatedAt'' = Some w" by blast
      from w have "w = STimestamp now" by (simp add: getProp_setProp table_defs)
      moreover from content_updatedAt_column keys have "''updatedAt'' \<in> fst ` set r"
        by (rule key_of_row)
      ultimately show ?thesis using col_assign_set[OF mo] r' by simp
    qed
    have "assign as r \<in> set (map (\<lambda>r. if col r ''id'' = idv then assign as r else r) (rows (db ''content'')))"
      using r hit by (rule rewritten_row_mem)
    with r' db' have mem: "r' \<in> set (rows (db' ''content''))" by simp
    from hit idv have idp: "idParam id' = Inr (col r ''id'')" by simp
    show "\<exists>r \<in> set (rows (db ''content'')).
               idParam id' = Inr (col r ''id'') \<and>
               (\<forall>k. \<not> supplied patch k \<and> k \<noteq> ''updatedAt'' \<longrightarrow> col r' k = col r k) \<and>
               (\<forall>k c. (k, c) \<in> set (columns content) \<and> supplied patch k \<and> k \<noteq> ''updatedAt'' \<longrightarrow>
                   mapToDriverValue (colType c) (getProp (ownProps patch) k) = Inr (col r' k)) \<and>
               col r' ''updatedAt'' = STimestamp now \<and>
               r' \<in> set (rows (db' ''content''))"
      by (intro bexI[of _ r] conjI) (fact idp frame new upd mem r)+
  qed
qed

lemma updateUpcomingContent_frame:
  assumes u: "updateUpcomingContent id' patch db = (Inr (Some r'), db')"
  shows "\<exists>r \<in> set (rows (db ''upcoming_content'')).
               idParam id' = Inr (col r ''id'') \<and>
               (\<forall>k. \<not> supplied patch k \<longrightarrow> col r' k = col r k)"
proof -
  from u obtain as idv where as: "assignments (columns upcomingContent) (ownProps patch) = Inr as"
    and idv: "idParam id' = Inr idv"
    and res: "Some r' = firstOrUndefined (map (assign as) (filter (\<lambda>r. col r ''id'' = idv) (rows (db ''upcoming_content''))))"
    by (rule updateUpcomingContent_Inr_D)
  from res have "firstOrUndefined (map (assign as) (filter (\<lambda>r. col r ''id'' = idv) (rows (db ''upcoming_content'')))) = Some r'"
    by simp
  from firstOrUndefined_map_filter[OF this]
  obtain r where r: "r \<in> set (rows (db ''upcoming_content''))" and hit: "col r ''id'' = idv"
      and r': "r' = assign as r"
    by blast
  have frame: "\<forall>k. \<not> supplied patch k \<longrightarrow> col r' k = col r k"
  proof (intro allI impI)
    fix k assume "\<not> supplied patch k"
    then have "getProp (ownProps patch) k = JUndefined" by (simp add: supplied_def)
    from assignments_not_supplied[OF as this] r' show "col r' k = col r k"
      by (simp add: col_assign_other)
  qed
  from hit idv have idp: "idParam id' = Inr (col r ''id'')" by simp
  show ?thesis by (intro bexI[of _ r] conjI) (fact idp frame r)+
qed

lemma getProp_mem: "getProp kvs k \<noteq> JUndefined \<Longrightarrow> (k, getProp kvs k) \<in> set kvs"
  by (induction kvs) (auto split: if_splits)

lemma numbersInRange_getProp:
  assumes "numbersInRange v" and "getProp (ownProps v) k = JNum n"
  shows "int4 n"
proof -
  from assms(2) have "(k, JNum n) \<in> set (ownProps v)"
    using getProp_mem[of "ownProps v" k] by simp
  with assms(1) show ?thesis by (auto simp: numbersInRange_def list_all_iff)
qed

lemma string_elements:
  "map (\<lambda>(i, x). parse ZString (p @ [Index i]) x) (enumerate n xs) = map Inr vs \<Longrightarrow>
   \<exists>ss. vs = map JStr ss"
proof (induction xs arbitrary: n vs)
  case Nil
  then show ?case by simp
next
  case (Cons x xs)
  then obtain v vs' where vs: "vs = v # vs'" by (cases vs) auto
  from Cons.prems[unfolded vs] have hd: "parse ZString (p @ [Index n]) x = Inr v"
    and tl: "map (\<lambda>(i, x). parse ZString (p @ [Index i]) x) (enumerate (Suc n) xs) = map Inr vs'"
    by simp_all
  from hd obtain s where "v = JStr s" by (cases x) (auto simp: invalid_type_def)
  moreover from Cons.IH[OF tl] obtain ss where "vs' = map JStr ss" by blast
  ultimately have "vs = map JStr (s # ss)" using vs by simp
  then show ?case by blast
qed

lemma parse_array_of_strings:
  assumes "parse (ZArray ZString) p x = Inr w"
  shows "\<exists>ss. w = JArr (map JStr ss)"
proof (cases x)
  case (JArr xs)
  with assms obtain vs where
    m: "mergeResults (map (\<lambda>(i, x). parse ZString (p @ [Index i]) x) (enumerate 0 xs)) = Inr vs"
    and w: "w = JArr vs"
    by (auto split: sum.splits simp del: parse.simps(1))
  from m[unfolded mergeResults_Inr] string_elements obtain ss where "vs = map JStr ss" by blast
  with w show ?thesis by blast
qed (use assms in \<open>auto simp: invalid_type_def\<close>)

lemma driver_strings:
  "sequenceSum (map (mapToDriverValue PgText) (map JStr ss)) = Inr (map SText ss)"
  by (induction ss) auto

lemma driver_text_array:
  "mapToDriverValue (PgArray PgText) (JArr (map JStr ss)) = Inr (SArray (map SText ss))"
  by (simp add: driver_strings del: map_map)

lemma validated_base_maps:
  assumes p: "parse (mapColumnToSchema ty) p x = Inr w"
    and ty: "ty = PgText \<or> ty = PgInteger \<or> ty = PgArray PgText"
    and rng: "\<forall>n. w = JNum n \<longrightarrow> int4 n"
  shows "\<exists>sv. mapToDriverValue ty w = Inr sv \<and> sv \<noteq> SNull"
proof -
  from ty consider "ty = PgText" | "ty = PgInteger" | "ty = PgArray PgText" by blast
  then show ?thesis
  proof cases
    case 1
    with p obtain s where "w = JStr s" by (cases x) (auto simp: invalid_type_def)
    with 1 show ?thesis by simp
  next
    case 2
    with p obtain n where "w = JNum n" by (cases x) (auto simp: invalid_type_def)
    with 2 rng show ?thesis by simp
  next
    case 3
    with p have "parse (ZArray ZString) p x = Inr w" by simp
    from parse_array_of_strings[OF this] obtain ss where "w = JArr (map JStr ss)" by blast
    with 3 show ?thesis using driver_text_array by simp
  qed
qed

lemma parse_optional_defined:
  "parse (ZOptional t) p x = Inr w \<Longrightarrow> w \<noteq> JUndefined \<Longrightarrow> parse t p x = Inr w"
  by (auto split: if_splits)

text \<open>A validated, supplied field has its column's type: the driver maps it, to a
  value that is not null when the column is \<open>notNull\<close>.\<close>

lemma validated_field_maps:
  assumes p: "parse (ZOptional (columnSchema c)) p x = Inr w" and w: "w \<noteq> JUndefined"
    and ty: "colType c = PgText \<or> colType c = PgInteger \<or> colType c = PgArray PgText"
    and rng: "\<forall>n. w = JNum n \<longrightarrow> int4 n"
  shows "\<exists>sv. mapToDriverValue (colType c) w = Inr sv \<and> (colNotNull c \<longrightarrow> sv \<noteq> SNull)"
proof -
  from parse_optional_defined[OF p w] have q: "parse (columnSchema c) p x = Inr w" .
  show ?thesis
  proof (cases "colNotNull c")
    case True
    with q w have "parse (mapColumnToSchema (colType c)) p x = Inr w"
      by (auto simp: columnSchema_def Let_def split: if_splits)
    from validated_base_maps[OF this ty rng] show ?thesis by blast
  next
    case False
    with q have "parse (ZOptional (ZNullable (mapColumnToSchema (colType c)))) p x = Inr w"
      by (simp add: columnSchema_def Let_def)
    from parse_optional_defined[OF this w]
    have n: "parse (ZNullable (mapColumnToSchema (colType c))) p x = Inr w" .
    show ?thesis
    proof (cases "x = JNull")
      case True
      with n have "w = JNull" by simp
      with False show ?thesis by simp
    next
      case xn: False
      with n have "parse (mapColumnToSchema (colType c)) p x = Inr w" by simp
      from validated_base_maps[OF this ty rng] show ?thesis by blast
    qed
  qed
qed

lemma sequenceSum_all_Inr:
  "(\<And>x. x \<in> set xs \<Longrightarrow> \<exists>y. f x = Inr y) \<Longrightarrow> \<exists>ys. sequenceSum (map f xs) = Inr ys"
proof (induction xs)
  case Nil
  show ?case by simp
next
  case (Cons x xs)
  from Cons.prems[of x] obtain y where y: "f x = Inr y" by auto
  from Cons.IH Cons.prems obtain ys where "sequenceSum (map f xs) = Inr ys" by auto
  with y show ?case by simp
qed

lemma firstError_None: "(\<And>e. e \<in> set es \<Longrightarrow> e = None) \<Longrightarrow> firstError es = None"
proof -
  assume "\<And>e. e \<in> set es \<Longrightarrow> e = None"
  then have "filter (\<lambda>e. e \<noteq> None) es = []" by (simp add: filter_empty_conv)
  then show ?thesis by (simp add: firstError_def)
qed

lemma updateSetWhereReturning_ok:
  assumes as: "assignments (columns t) vals = Inr as" and ne: "as \<noteq> []"
    and idv: "idParam id' = Inr idv"
    and chk: "\<And>r. r \<in> set (rows (db (tableName t))) \<Longrightarrow> col r ''id'' = idv \<Longrightarrow>
       checkConstraints (filter (\<lambda>kc. fst kc \<in> fst ` set as) (columns t)) db
          (filter (\<lambda>r. col r ''id'' \<noteq> idv) (rows (db (tableName t)))) (assign as r) = None"
    and ref: "\<And>kv v. kv \<in> set as \<Longrightarrow> \<not> isReferenced db t (fst kv) v"
  shows "\<exists>rs db'. updateSetWhereReturning t vals id' db = (Inr rs, db')"
proof -
  let ?hits = "filter (\<lambda>r. col r ''id'' = idv) (rows (db (tableName t)))"
  have 1: "firstError (map (checkConstraints (filter (\<lambda>kc. fst kc \<in> fst ` set as) (columns t)) db
          (filter (\<lambda>r. col r ''id'' \<noteq> idv) (rows (db (tableName t))))) (map (assign as) ?hits)) = None"
    by (rule firstError_None) (use chk in auto)
  have 2: "\<not> list_ex (\<lambda>r. list_ex (\<lambda>kv. col r (fst kv) \<noteq> snd kv \<and>
                 isReferenced db t (fst kv) (col r (fst kv))) as) ?hits"
    using ref by (simp add: list_ex_iff)
  from as ne idv 1 2 show ?thesis
    by (simp add: updateSetWhereReturning_def Let_def)
qed

lemma partial_shape: "partial s = ZObject (shape (partial s))"
  by (simp add: partial_def)

lemma partial_insertContentSchema_fields:
  "shape (partial insertContentSchema) =
     map (\<lambda>kc. (fst kc, ZOptional (columnSchema (snd kc))))
       (filter (\<lambda>kc. fst kc \<notin> set [''id'', ''createdAt'', ''updatedAt'', ''views''])
          (columns content))"
  by (simp add: partial_def insertContentSchema_def omit_def createInsertSchema_def
      filter_map comp_def)

lemma partial_insertContentSchema_distinct:
  "distinct (map fst (shape (partial insertContentSchema)))"
proof -
  have "map fst (shape (partial insertContentSchema)) =
      map fst (filter (\<lambda>kc. fst kc \<notin> set [''id'', ''createdAt'', ''updatedAt'', ''views''])
          (columns content))"
    unfolding partial_insertContentSchema_fields by (simp add: comp_def)
  then show ?thesis using content_distinct by (simp add: distinct_map_filter)
qed

lemma content_column_types:
  "(k, c) \<in> set (columns content) \<Longrightarrow> k \<noteq> ''id'' \<Longrightarrow> k \<noteq> ''createdAt'' \<Longrightarrow> k \<noteq> ''updatedAt'' \<Longrightarrow>
   colType c = PgText \<or> colType c = PgInteger \<or> colType c = PgArray PgText"
  unfolding table_defs by (simp, elim disjE) simp_all

lemma content_unique_columns:
  "(k, c) \<in> set (columns content) \<Longrightarrow> colPrimaryKey c \<or> colUnique c \<Longrightarrow> k = ''id''"
  unfolding table_defs by (simp, elim disjE) simp_all

lemma content_no_references:
  "(k, c) \<in> set (columns content) \<Longrightarrow> colReferences c = None"
  unfolding table_defs by (simp, elim disjE) simp_all

lemma content_updatedAt_unique:
  "(''updatedAt'', c) \<in> set (columns content) \<Longrightarrow> c = notNull (defaultNow (timestamp ''updated_at''))"
  by (simp add: table_defs)

text \<open>Every column that a validated partial payload sets is mapped by the driver, to a
  value that is not null when the column is \<open>notNull\<close>; the identifier is not set.\<close>

lemma validated_patch_column:
  assumes v: "parse (partial insertContentSchema) [] b = Inr patch"
    and rng: "numbersInRange patch"
    and kc: "(k, c) \<in> set (columns content)"
    and s: "getProp (setProp (ownProps patch) ''updatedAt'' (JDate (Some now))) k \<noteq> JUndefined"
  shows "k \<noteq> ''id'' \<and>
         (\<exists>sv. mapToDriverValue (colType c)
                  (getProp (setProp (ownProps patch) ''updatedAt'' (JDate (Some now))) k) = Inr sv \<and>
               (colNotNull c \<longrightarrow> sv \<noteq> SNull))"
proof (cases "k = ''updatedAt''")
  case True
  with kc have "c = notNull (defaultNow (timestamp ''updated_at''))"
    by (simp add: content_updatedAt_unique)
  with True show ?thesis by (simp add: getProp_setProp table_defs)
next
  case False
  with s have sp: "getProp (ownProps patch) k \<noteq> JUndefined" by (simp add: getProp_setProp)
  from v have p: "parse (ZObject (shape (partial insertContentSchema))) [] b = Inr patch"
    using partial_shape[of insertContentSchema] by simp
  have other: "k \<notin> set [''id'', ''createdAt'', ''updatedAt'', ''views'']"
  proof
    assume "k \<in> set [''id'', ''createdAt'', ''updatedAt'', ''views'']"
    then have "k \<notin> fst ` set (shape (partial insertContentSchema))"
      unfolding partial_insertContentSchema_fields by force
    from parse_object_other[OF p this] sp show False by simp
  qed
  with kc have mem: "(k, ZOptional (columnSchema c)) \<in> set (shape (partial insertContentSchema))"
    unfolding partial_insertContentSchema_fields by force
  from parse_object_field[OF p partial_insertContentSchema_distinct mem]
  have f: "parse (ZOptional (columnSchema c)) ([] @ [Key k]) (getProp (ownProps b) k)
            = Inr (getProp (ownProps patch) k)" .
  from other have ne: "k \<noteq> ''id''" "k \<noteq> ''createdAt''" "k \<noteq> ''updatedAt''" by auto
  have r: "\<forall>n. getProp (ownProps patch) k = JNum n \<longrightarrow> int4 n"
    using numbersInRange_getProp[OF rng] by blast
  from validated_field_maps[OF f sp content_column_types[OF kc ne] r] ne(1) False
  show ?thesis by (simp add: getProp_setProp)
qed

lemma updateContent_validated_returns:
  assumes v: "parse (partial insertContentSchema) [] b = Inr patch"
    and rng: "numbersInRange patch" and i: "int4 i" and wf: "hasColumns content db"
  shows "\<exists>res db'. updateContent now (Num i) patch db = (Inr res, db')"
proof -
  let ?vals = "setProp (ownProps patch) ''updatedAt'' (JDate (Some now))"
  let ?sel = "filter (\<lambda>kc. getProp ?vals (fst kc) \<noteq> JUndefined) (columns content)"
  note col = validated_patch_column[OF v rng]
  have "\<exists>as. sequenceSum (map (\<lambda>kc. map_sum id (Pair (fst kc))
                     (mapToDriverValue (colType (snd kc)) (getProp ?vals (fst kc)))) ?sel) = Inr as"
  proof (rule sequenceSum_all_Inr)
    fix kc assume "kc \<in> set ?sel"
    then have "(fst kc, snd kc) \<in> set (columns content)" and "getProp ?vals (fst kc) \<noteq> JUndefined"
      by simp_all
    from col[OF this] obtain sv where
      "mapToDriverValue (colType (snd kc)) (getProp ?vals (fst kc)) = Inr sv" by blast
    then show "\<exists>y. map_sum id (Pair (fst kc))
                     (mapToDriverValue (colType (snd kc)) (getProp ?vals (fst kc))) = Inr y"
      by simp
  qed
  then obtain as where as: "assignments (columns content) ?vals = Inr as"
    unfolding assignments_def by blast
  have su: "getProp ?vals ''updatedAt'' \<noteq> JUndefined" by (simp add: getProp_setProp)
  from assignments_supplied[OF as content_distinct content_updatedAt_column su]
  have ne: "as \<noteq> []" by auto
  have idv: "idParam (Num i) = Inr (SInt i)" using i by simp
  have keys_as: "\<And>k. k \<in> fst ` set as \<Longrightarrow> getProp ?vals k \<noteq> JUndefined"
  proof -
    fix k assume "k \<in> fst ` set as"
    then have "k \<in> set (map fst as)" by simp
    then show "getProp ?vals k \<noteq> JUndefined"
      unfolding assignments_keys[OF as] by auto
  qed
  have chk: "\<And>r. r \<in> set (rows (db (tableName content))) \<Longrightarrow> col r ''id'' = SInt i \<Longrightarrow>
       checkConstraints (filter (\<lambda>kc. fst kc \<in> fst ` set as) (columns content)) db
          (filter (\<lambda>r. col r ''id'' \<noteq> SInt i) (rows (db (tableName content)))) (assign as r) = None"
  proof -
    fix r assume r: "r \<in> set (rows (db (tableName content)))"
    let ?assigned = "filter (\<lambda>kc. fst kc \<in> fst ` set as) (columns content)"
    let ?others = "filter (\<lambda>r. col r ''id'' \<noteq> SInt i) (rows (db (tableName content)))"
    from wf r have keys: "map fst r = map fst (columns content)"
      by (simp add: hasColumns_def list_all_iff)
    have nn: "notNullViolations ?assigned (assign as r) = []"
    proof -
      have "\<And>kc. kc \<in> set ?assigned \<Longrightarrow> \<not> (colNotNull (snd kc) \<and> col (assign as r) (fst kc) = SNull)"
      proof -
        fix kc assume a: "kc \<in> set ?assigned"
        then have kc: "(fst kc, snd kc) \<in> set (columns content)" and k: "fst kc \<in> fst ` set as"
          by simp_all
        from keys_as[OF k] have s: "getProp ?vals (fst kc) \<noteq> JUndefined" .
        from col[OF kc s] obtain sv where
          sv: "mapToDriverValue (colType (snd kc)) (getProp ?vals (fst kc)) = Inr sv"
          and n: "colNotNull (snd kc) \<longrightarrow> sv \<noteq> SNull" by blast
        from assignments_supplied[OF as content_distinct kc s] sv
        have mo: "map_of as (fst kc) = Some sv" by auto
        from kc keys have "fst kc \<in> fst ` set r" by (rule key_of_row)
        from col_assign_set[OF mo this] n
        show "\<not> (colNotNull (snd kc) \<and> col (assign as r) (fst kc) = SNull)" by simp
      qed
      then show ?thesis by (simp add: notNullViolations_def filter_empty_conv)
    qed
    have uq: "uniqueViolations ?assigned ?others (assign as r) = []"
    proof -
      have "\<And>kc. kc \<in> set ?assigned \<Longrightarrow> \<not> (colPrimaryKey (snd kc) \<or> colUnique (snd kc))"
      proof
        fix kc assume a: "kc \<in> set ?assigned" and u: "colPrimaryKey (snd kc) \<or> colUnique (snd kc)"
        then have kc: "(fst kc, snd kc) \<in> set (columns content)" and k: "fst kc \<in> fst ` set as"
          by simp_all
        from content_unique_columns[OF kc u] have "fst kc = ''id''" .
        moreover from col[OF kc keys_as[OF k]] have "fst kc \<noteq> ''id''" by simp
        ultimately show False by simp
      qed
      then show ?thesis by (simp add: uniqueViolations_def filter_empty_conv)
    qed
    have fk: "foreignKeyViolations ?assigned db (assign as r) = []"
    proof -
      have "\<And>kc. kc \<in> set ?assigned \<Longrightarrow> colReferences (snd kc) = None"
      proof -
        fix kc assume "kc \<in> set ?assigned"
        then have "(fst kc, snd kc) \<in> set (columns content)" by simp
        then show "colReferences (snd kc) = None" by (rule content_no_references)
      qed
      then show ?thesis by (simp add: foreignKeyViolations_def filter_empty_conv)
    qed
    from nn uq fk show "checkConstraints ?assigned db ?others (assign as r) = None"
      by (simp add: checkConstraints_def)
  qed
  have ref: "\<And>kv v. kv \<in> set as \<Longrightarrow> \<not> isReferenced db content (fst kv) v"
  proof -
    fix kv :: "string \<times> sqlval" and v assume "kv \<in> set as"
    then have k: "fst kv \<in> fst ` set as" by simp
    from keys_as[OF k] have s: "getProp ?vals (fst kv) \<noteq> JUndefined" .
    have "fst kv \<noteq> ''id''"
    proof
      assume e: "fst kv = ''id''"
      from col[OF content_id_column] s e show False by simp
    qed
    then show "\<not> isReferenced db content (fst kv) v"
      by (simp add: isReferenced_def referencing_content)
  qed
  from updateSetWhereReturning_ok[OF as ne idv chk ref] obtain rs db' where
    "updateSetWhereReturning content ?vals (Num i) db = (Inr rs, db')" by blast
  then have "updateContent now (Num i) patch db = (Inr (firstOrUndefined rs), db')"
    by (simp add: updateContent_def)
  then show ?thesis by blast
qed

section \<open>The analytics aggregate\<close>




section \<open>Creating content\<close>

text \<open>
  Claim C5. \<open>POST /api/content\<close> with the body
  \<open>{title:"X", type:"movie", genres:["Drama"], rating:"PG"}\<close> responds 200 with the stored
  record: its \<open>id\<close> is the next value of the sequence, its \<open>views\<close> are 0 and its
  \<open>status\<close> is \<open>draft\<close>. The same body without \<open>genres\<close> responds 400 with one
  issue, whose path names \<open>genres\<close>; nothing is stored.
\<close>

theorem POST_api_content_example:
  "(sequenceAhead content db \<longrightarrow>
      (\<exists>c db'. POST_api_content now examplePayload db = (respond 200 (Row c), db') \<and>
         col c ''id'' = SInt (lastId (db ''content'') + 1) \<and>
         col c ''views'' = SInt 0 \<and>
         col c ''status'' = SText ''draft'' \<and>
         col c ''title'' = SText ''X'' \<and> col c ''type'' = SText ''movie'' \<and>
         col c ''genres'' = SArray [SText ''Drama''] \<and> col c ''rating'' = SText ''PG'' \<and>
         rows (db' ''content'') = rows (db ''content'') @ [c])) \<and>
   POST_api_content now
      (JObj [(''title'', JStr ''X''), (''type'', JStr ''movie''), (''rating'', JStr ''PG'')]) db =
     (respond 400 (ErrorDetails ''Invalid data''
                     [ZodIssue ''invalid_type'' [Key ''genres''] ''Required'']), db)"
proof (intro conjI impI)
  assume ahead: "sequenceAhead content db"
  let ?c = "[(''id'', SInt (lastId (db ''content'') + 1)), (''title'', SText ''X''), (''type'', SText ''movie''),
       (''genres'', SArray [SText ''Drama'']), (''duration'', SNull),
       (''rating'', SText ''PG''), (''status'', SText ''draft''), (''views'', SInt 0),
       (''description'', SNull), (''thumbnailUrl'', SNull), (''videoUrl'', SNull),
       (''trailerUrl'', SNull), (''releaseYear'', SNull), (''director'', SNull),
       (''writer'', SNull), (''cast'', SNull), (''tags'', SNull), (''episodes'', SNull),
       (''createdAt'', STimestamp now), (''updatedAt'', STimestamp now)]"
  let ?db' = "db(''content'' := \<lparr>rows = rows (db ''content'') @ [?c],
                                     lastId = lastId (db ''content'') + 1\<rparr>)"
  have nn: "notNullViolations (columns content) ?c = []"
    by (simp add: notNullViolations_def table_defs col_def)
  have noid: "getProp (ownProps examplePayload) ''id'' = JUndefined"
    by (simp add: examplePayload_def)
  from createContent_ok[OF buildRow_examplePayload noid nn ahead]
  have "POST_api_content now examplePayload db = (respond 200 (Row ?c), ?db')"
    by (simp add: POST_api_content_def parse_examplePayload)
  moreover have "col ?c ''id'' = SInt (lastId (db ''content'') + 1)" "col ?c ''views'' = SInt 0"
    "col ?c ''status'' = SText ''draft''" "col ?c ''title'' = SText ''X''"
    "col ?c ''type'' = SText ''movie''" "col ?c ''genres'' = SArray [SText ''Drama'']"
    "col ?c ''rating'' = SText ''PG''" "rows (?db' ''content'') = rows (db ''content'') @ [?c]"
    by (simp_all add: col_def)
  ultimately show "\<exists>c db'. POST_api_content now examplePayload db = (respond 200 (Row c), db') \<and>
         col c ''id'' = SInt (lastId (db ''content'') + 1) \<and>
         col c ''views'' = SInt 0 \<and>
         col c ''status'' = SText ''draft'' \<and>
         col c ''title'' = SText ''X'' \<and> col c ''type'' = SText ''movie'' \<and>
         col c ''genres'' = SArray [SText ''Drama''] \<and> col c ''rating'' = SText ''PG'' \<and>
         rows (db' ''content'') = rows (db ''content'') @ [c]"
    by (intro exI[of _ ?c] exI[of _ ?db'] conjI)
next
  have "parse insertContentSchema []
      (JObj [(''title'', JStr ''X''), (''type'', JStr ''movie''), (''rating'', JStr ''PG'')]) =
      Inl [ZodIssue ''invalid_type'' [Key ''genres''] ''Required'']"
    by code_simp
  then show "POST_api_content now
      (JObj [(''title'', JStr ''X''), (''type'', JStr ''movie''), (''rating'', JStr ''PG'')]) db =
     (respond 400 (ErrorDetails ''Invalid data''
                     [ZodIssue ''invalid_type'' [Key ''genres''] ''Required'']), db)"
    by (simp add: POST_api_content_def)
qed

text \<open>On the empty store the record gets the identifier 1.\<close>

theorem POST_api_content_example_witness:
  "sequenceAhead content emptyDb \<and>
   (\<exists>c db'. POST_api_content 1000 examplePayload emptyDb = (respond 200 (Row c), db') \<and>
         col c ''id'' = SInt 1 \<and> col c ''views'' = SInt 0 \<and> col c ''status'' = SText ''draft'' \<and>
         rows (db' ''content'') = [c])"
proof -
  from POST_api_content_example[of emptyDb 1000] sequenceAhead_emptyDb
  obtain c db' where "POST_api_content 1000 examplePayload emptyDb = (respond 200 (Row c), db')"
    "col c ''id'' = SInt (lastId (emptyDb ''content'') + 1)" "col c ''views'' = SInt 0"
    "col c ''status'' = SText ''draft''" "rows (db' ''content'') = rows (emptyDb ''content'') @ [c]"
    by blast
  then have "POST_api_content 1000 examplePayload emptyDb = (respond 200 (Row c), db') \<and>
         col c ''id'' = SInt 1 \<and> col c ''views'' = SInt 0 \<and> col c ''status'' = SText ''draft'' \<and>
         rows (db' ''content'') = [c]"
    by (simp add: emptyDb_def)
  then show ?thesis using sequenceAhead_emptyDb by (intro conjI exI[of _ c] exI[of _ db']) simp_all
qed

section \<open>Published content\<close>




section \<open>Insert schemas and server-assigned fields\<close>

lemma insertContentSchema_shape: "insertContentSchema = ZObject (shape insertContentSchema)"
  by (simp add: insertContentSchema_def omit_def)

lemma insertAnalyticsSchema_shape: "insertAnalyticsSchema = ZObject (shape insertAnalyticsSchema)"
  by (simp add: insertAnalyticsSchema_def omit_def)

lemma insertContentSchema_keys:
  "map fst (shape insertContentSchema) =
     [''title'', ''type'', ''genres'', ''duration'', ''rating'', ''status'', ''description'',
      ''thumbnailUrl'', ''videoUrl'', ''trailerUrl'', ''releaseYear'', ''director'', ''writer'',
      ''cast'', ''tags'', ''episodes'']"
  by code_simp

lemma insertAnalyticsSchema_keys:
  "map fst (shape insertAnalyticsSchema) = [''contentId'', ''eventType'', ''userId'', ''metadata'']"
  by code_simp

lemma insertReturning_Inr_D:
  assumes "insertReturning t now vals db = (Inr r, db')"
  shows "buildRow now (lastId (db (tableName t)) + 1) (columns t) vals = Inr r"
  using assms by (auto simp: insertReturning_def Let_def split: sum.splits if_splits option.splits)

lemma parse_insertContentSchema_omitted:
  assumes "parse insertContentSchema [] b = Inr v"
  shows "getProp (ownProps v) ''id'' = JUndefined" "getProp (ownProps v) ''views'' = JUndefined"
    "getProp (ownProps v) ''createdAt'' = JUndefined" "getProp (ownProps v) ''updatedAt'' = JUndefined"
proof -
  from assms have p: "parse (ZObject (shape insertContentSchema)) [] b = Inr v"
    using insertContentSchema_shape by simp
  have "''id'' \<notin> fst ` set (shape insertContentSchema)" "''views'' \<notin> fst ` set (shape insertContentSchema)"
    "''createdAt'' \<notin> fst ` set (shape insertContentSchema)" "''updatedAt'' \<notin> fst ` set (shape insertContentSchema)"
    unfolding set_map[symmetric] insertContentSchema_keys by simp_all
  with p show "getProp (ownProps v) ''id'' = JUndefined" "getProp (ownProps v) ''views'' = JUndefined"
    "getProp (ownProps v) ''createdAt'' = JUndefined" "getProp (ownProps v) ''updatedAt'' = JUndefined"
    by (simp_all add: parse_object_other)
qed

lemma parse_insertAnalyticsSchema_omitted:
  assumes "parse insertAnalyticsSchema [] b = Inr v"
  shows "getProp (ownProps v) ''id'' = JUndefined" "getProp (ownProps v) ''timestamp'' = JUndefined"
proof -
  from assms have p: "parse (ZObject (shape insertAnalyticsSchema)) [] b = Inr v"
    using insertAnalyticsSchema_shape by simp
  have "''id'' \<notin> fst ` set (shape insertAnalyticsSchema)" "''timestamp'' \<notin> fst ` set (shape insertAnalyticsSchema)"
    unfolding set_map[symmetric] insertAnalyticsSchema_keys by simp_all
  with p show "getProp (ownProps v) ''id'' = JUndefined" "getProp (ownProps v) ''timestamp'' = JUndefined"
    by (simp_all add: parse_object_other)
qed

lemma POST_api_content_200_D:
  assumes "POST_api_content now b db = (respond 200 (Row c), db')"
  obtains v where "parse insertContentSchema [] b = Inr v"
    and "buildRow now (lastId (db ''content'') + 1) (columns content) (ownProps v) = Inr c"
proof -
  from assms obtain v where v: "parse insertContentSchema [] b = Inr v"
    and c: "createContent now v db = (Inr c, db')"
    by (auto simp: POST_api_content_def respond_def split: sum.splits prod.splits)
  from insertReturning_Inr_D[OF c[unfolded createContent_def]] v that show ?thesis
    by (simp add: tableName_simps)
qed

lemma POST_api_analytics_200_D:
  assumes "POST_api_analytics now b db = (respond 200 (Row c), db')"
  obtains v where "parse insertAnalyticsSchema [] b = Inr v"
    and "buildRow now (lastId (db ''analytics'') + 1) (columns analytics) (ownProps v) = Inr c"
proof -
  from assms obtain v where v: "parse insertAnalyticsSchema [] b = Inr v"
    and c: "createAnalyticsEvent now v db = (Inr c, db')"
    by (auto simp: POST_api_analytics_def respond_def split: sum.splits prod.splits)
  from insertReturning_Inr_D[OF c[unfolded createAnalyticsEvent_def]] v that show ?thesis
    by (simp add: tableName_simps)
qed

lemma analytics_distinct: "distinct (map fst (columns analytics))"
  by (simp add: table_defs)

lemma content_server_assigned:
  assumes "POST_api_content now b db = (respond 200 (Row c), db')"
  shows "col c ''id'' = SInt (lastId (db ''content'') + 1) \<and> col c ''views'' = SInt 0 \<and>
         col c ''createdAt'' = STimestamp now \<and> col c ''updatedAt'' = STimestamp now"
proof -
  from assms obtain v where v: "parse insertContentSchema [] b = Inr v"
    and b: "buildRow now (lastId (db ''content'') + 1) (columns content) (ownProps v) = Inr c"
    by (rule POST_api_content_200_D)
  note o = parse_insertContentSchema_omitted[OF v]
  have "col c ''id'' = evalDefault now (lastId (db ''content'') + 1) (primaryKey (serial ''id''))"
    by (rule buildRow_default[OF b content_distinct _ o(1)]) (simp add: table_defs)
  moreover have "col c ''views'' = evalDefault now (lastId (db ''content'') + 1) (withDefault (SInt 0) (integer ''views''))"
    by (rule buildRow_default[OF b content_distinct _ o(2)]) (simp add: table_defs)
  moreover have "col c ''createdAt'' = evalDefault now (lastId (db ''content'') + 1) (notNull (defaultNow (timestamp ''created_at'')))"
    by (rule buildRow_default[OF b content_distinct _ o(3)]) (simp add: table_defs)
  moreover have "col c ''updatedAt'' = evalDefault now (lastId (db ''content'') + 1) (notNull (defaultNow (timestamp ''updated_at'')))"
    by (rule buildRow_default[OF b content_distinct _ o(4)]) (simp add: table_defs)
  ultimately show ?thesis by (simp add: evalDefault_def table_defs)
qed

lemma analytics_server_assigned:
  assumes "POST_api_analytics now b db = (respond 200 (Row e), db')"
  shows "col e ''id'' = SInt (lastId (db ''analytics'') + 1) \<and> col e ''timestamp'' = STimestamp now"
proof -
  from assms obtain v where v: "parse insertAnalyticsSchema [] b = Inr v"
    and b: "buildRow now (lastId (db ''analytics'') + 1) (columns analytics) (ownProps v) = Inr e"
    by (rule POST_api_analytics_200_D)
  note o = parse_insertAnalyticsSchema_omitted[OF v]
  have "col e ''id'' = evalDefault now (lastId (db ''analytics'') + 1) (primaryKey (serial ''id''))"
    by (rule buildRow_default[OF b analytics_distinct _ o(1)]) (simp add: table_defs)
  moreover have "col e ''timestamp'' = evalDefault now (lastId (db ''analytics'') + 1) (notNull (defaultNow (timestamp ''timestamp'')))"
    by (rule buildRow_default[OF b analytics_distinct _ o(2)]) (simp add: table_defs)
  ultimately show ?thesis by (simp add: evalDefault_def table_defs)
qed

text \<open>
  Claim C8. The insert schema of a record kind is the shape of its table minus the
  server-assigned fields, every remaining field validated as its column: for content
  the identifier, the two timestamps and the view counter are omitted, for analytics
  the identifier and the timestamp (and for users and upcoming content the
  identifier, and the creation timestamp). A payload cannot set the omitted fields:
  whatever the body holds, a created content row has the next identifier of the
  sequence, 0 views, and the current time as both timestamps; a created event has
  the next identifier and the current time.
\<close>

theorem insert_schemas_omit_server_assigned:
  "map fst (shape insertContentSchema) =
     filter (\<lambda>k. k \<notin> {''id'', ''createdAt'', ''updatedAt'', ''views''}) (map fst (columns content)) \<and>
   map fst (shape insertAnalyticsSchema) =
     filter (\<lambda>k. k \<notin> {''id'', ''timestamp''}) (map fst (columns analytics)) \<and>
   map fst (shape insertUserSchema) = filter (\<lambda>k. k \<notin> {''id''}) (map fst (columns users)) \<and>
   map fst (shape (insertUpcomingContentSchema Date)) =
     filter (\<lambda>k. k \<notin> {''id'', ''createdAt''}) (map fst (columns upcomingContent)) \<and>
   (\<forall>kt \<in> set (shape insertContentSchema).
       \<exists>c. (fst kt, c) \<in> set (columns content) \<and> snd kt = columnSchema c) \<and>
   (\<forall>kt \<in> set (shape insertAnalyticsSchema).
       \<exists>c. (fst kt, c) \<in> set (columns analytics) \<and> snd kt = columnSchema c) \<and>
   (POST_api_content now b db = (respond 200 (Row c), db') \<longrightarrow>
      col c ''id'' = SInt (lastId (db ''content'') + 1) \<and> col c ''views'' = SInt 0 \<and>
      col c ''createdAt'' = STimestamp now \<and> col c ''updatedAt'' = STimestamp now) \<and>
   (POST_api_analytics now b' db = (respond 200 (Row e), db'') \<longrightarrow>
      col e ''id'' = SInt (lastId (db ''analytics'') + 1) \<and> col e ''timestamp'' = STimestamp now)"
proof (intro conjI)
  show "map fst (shape insertContentSchema) =
     filter (\<lambda>k. k \<notin> {''id'', ''createdAt'', ''updatedAt'', ''views''}) (map fst (columns content))"
    unfolding insertContentSchema_keys by (simp add: table_defs)
  show "map fst (shape insertAnalyticsSchema) =
     filter (\<lambda>k. k \<notin> {''id'', ''timestamp''}) (map fst (columns analytics))"
    unfolding insertAnalyticsSchema_keys by (simp add: table_defs)
  show "map fst (shape insertUserSchema) = filter (\<lambda>k. k \<notin> {''id''}) (map fst (columns users))"
    by (simp add: insertUserSchema_def pick_def createInsertSchema_def table_defs)
  show "map fst (shape (insertUpcomingContentSchema Date)) =
     filter (\<lambda>k. k \<notin> {''id'', ''createdAt''}) (map fst (columns upcomingContent))"
    by (simp add: insertUpcomingContentSchema_def zodExtend_def omit_def createInsertSchema_def
        table_defs)
  show "\<forall>kt \<in> set (shape insertContentSchema).
       \<exists>c. (fst kt, c) \<in> set (columns content) \<and> snd kt = columnSchema c"
    by (auto simp: insertContentSchema_def omit_def createInsertSchema_def)
  show "\<forall>kt \<in> set (shape insertAnalyticsSchema).
       \<exists>c. (fst kt, c) \<in> set (columns analytics) \<and> snd kt = columnSchema c"
    by (auto simp: insertAnalyticsSchema_def omit_def createInsertSchema_def)
  show "POST_api_content now b db = (respond 200 (Row c), db') \<longrightarrow>
      col c ''id'' = SInt (lastId (db ''content'') + 1) \<and> col c ''views'' = SInt 0 \<and>
      col c ''createdAt'' = STimestamp now \<and> col c ''updatedAt'' = STimestamp now"
    using content_server_assigned by blast
  show "POST_api_analytics now b' db = (respond 200 (Row e), db'') \<longrightarrow>
      col e ''id'' = SInt (lastId (db ''analytics'') + 1) \<and> col e ''timestamp'' = STimestamp now"
    using analytics_server_assigned by blast
qed

lemma forgedPayload_row:
  "fst (POST_api_content 1000 forgedPayload emptyDb) =
     respond 200 (Row
      [(''id'', SInt 1), (''title'', SText ''X''), (''type'', SText ''movie''),
       (''genres'', SArray [SText ''Drama'']), (''duration'', SNull),
       (''rating'', SText ''PG''), (''status'', SText ''draft''), (''views'', SInt 0),
       (''description'', SNull), (''thumbnailUrl'', SNull), (''videoUrl'', SNull),
       (''trailerUrl'', SNull), (''releaseYear'', SNull), (''director'', SNull),
       (''writer'', SNull), (''cast'', SNull), (''tags'', SNull), (''episodes'', SNull),
       (''createdAt'', STimestamp 1000), (''updatedAt'', STimestamp 1000)])"
  by code_simp

lemma forgedEvent_row:
  "fst (POST_api_analytics 1000 forgedEvent emptyDb) =
     respond 200 (Row
      [(''id'', SInt 1), (''contentId'', SNull), (''eventType'', SText ''view''),
       (''userId'', SNull), (''timestamp'', STimestamp 1000), (''metadata'', SNull)])"
  by code_simp

text \<open>A body that names \<open>id\<close>, \<open>views\<close> and \<open>createdAt\<close> is accepted, and the stored row
  has none of the values it names.\<close>

theorem insert_schemas_omit_server_assigned_witness:
  "(\<exists>c e db1 db2.
      POST_api_content 1000 forgedPayload emptyDb = (respond 200 (Row c), db1) \<and>
      POST_api_analytics 1000 forgedEvent emptyDb = (respond 200 (Row e), db2) \<and>
      getProp (ownProps forgedPayload) ''id'' = JNum 77 \<and>
      getProp (ownProps forgedPayload) ''views'' = JNum 5 \<and>
      col c ''id'' = SInt 1 \<and> col c ''views'' = SInt 0 \<and> col c ''createdAt'' = STimestamp 1000 \<and>
      getProp (ownProps forgedEvent) ''id'' = JNum 77 \<and>
      col e ''id'' = SInt 1 \<and> col e ''timestamp'' = STimestamp 1000) \<and>
   set (shape insertContentSchema) \<noteq> {} \<and> set (shape insertAnalyticsSchema) \<noteq> {}"
proof -
  obtain c db1 where c: "POST_api_content 1000 forgedPayload emptyDb = (respond 200 (Row c), db1)"
    using forgedPayload_row by (cases "POST_api_content 1000 forgedPayload emptyDb") simp
  obtain e db2 where e: "POST_api_analytics 1000 forgedEvent emptyDb = (respond 200 (Row e), db2)"
    using forgedEvent_row by (cases "POST_api_analytics 1000 forgedEvent emptyDb") simp
  from insert_schemas_omit_server_assigned[where now=1000 and b=forgedPayload and db=emptyDb
      and c=c and db'=db1 and b'=forgedEvent and e=e and db''=db2] c
  have 1: "col c ''id'' = SInt 1" "col c ''views'' = SInt 0" "col c ''createdAt'' = STimestamp 1000"
    by (simp_all add: emptyDb_def)
  from insert_schemas_omit_server_assigned[where now=1000 and b=forgedPayload and db=emptyDb
      and c=c and db'=db1 and b'=forgedEvent and e=e and db''=db2] e
  have 2: "col e ''id'' = SInt 1" "col e ''timestamp'' = STimestamp 1000"
    by (simp_all add: emptyDb_def)
  have 3: "getProp (ownProps forgedPayload) ''id'' = JNum 77"
    "getProp (ownProps forgedPayload) ''views'' = JNum 5"
    "getProp (ownProps forgedEvent) ''id'' = JNum 77"
    by (simp_all add: forgedPayload_def forgedEvent_def)
  have 4: "set (shape insertContentSchema) \<noteq> {}" "set (shape insertAnalyticsSchema) \<noteq> {}"
    using insertContentSchema_keys insertAnalyticsSchema_keys by fastforce+
  show ?thesis
    by (intro conjI exI[of _ c] exI[of _ e] exI[of _ db1] exI[of _ db2]) (fact c e 1 2 3 4)+
qed

section \<open>Invariants that only the upload form checks\<close>

lemma POST_api_content_ok:
  assumes p: "parse insertContentSchema [] b = Inr v"
    and r: "buildRow now (lastId (db ''content'') + 1) (columns content) (ownProps v) = Inr r"
    and nn: "notNullViolations (columns content) r = []"
    and ahead: "sequenceAhead content db"
  shows "POST_api_content now b db =
           (respond 200 (Row r), db(''content'' := \<lparr>rows = rows (db ''content'') @ [r],
                                     lastId = lastId (db ''content'') + 1\<rparr>))"
  using createContent_ok[OF r parse_insertContentSchema_omitted(1)[OF p] nn ahead] p
  by (simp add: POST_api_content_def)

lemma parse_emptyGenresPayload:
  "parse insertContentSchema [] emptyGenresPayload = Inr emptyGenresPayload"
  by code_simp

lemma parse_tvShowWithoutEpisodes:
  "parse insertContentSchema [] tvShowWithoutEpisodes = Inr tvShowWithoutEpisodes"
  by code_simp

lemma parse_unlistedVariants:
  "parse insertContentSchema [] unlistedVariants = Inr unlistedVariants"
  by code_simp

lemma parse_shareEvent: "parse insertAnalyticsSchema [] shareEvent = Inr shareEvent"
  by code_simp

lemma notNull_contentRow:
  "gs \<noteq> SNull \<Longrightarrow> notNullViolations (columns content) (contentRow i ti ty gs ra st now) = []"
  by (simp add: notNullViolations_def table_defs col_def contentRow_def)

lemma buildRow_emptyGenresPayload:
  "buildRow now nv (columns content) (ownProps emptyGenresPayload) =
     Inr (contentRow nv ''X'' ''movie'' (SArray []) ''PG'' ''draft'' now)"
  by (simp add: buildRow_def emptyGenresPayload_def table_defs evalDefault_def contentRow_def)

lemma buildRow_tvShowWithoutEpisodes:
  "buildRow now nv (columns content) (ownProps tvShowWithoutEpisodes) =
     Inr (contentRow nv ''X'' ''tv_show'' (SArray [SText ''Drama'']) ''PG'' ''draft'' now)"
  by (simp add: buildRow_def tvShowWithoutEpisodes_def table_defs evalDefault_def contentRow_def)

lemma buildRow_unlistedVariants:
  "buildRow now nv (columns content) (ownProps unlistedVariants) =
     Inr (contentRow nv ''X'' ''documentary'' (SArray [SText ''Drama'']) ''PG'' ''archived'' now)"
  by (simp add: buildRow_def unlistedVariants_def table_defs evalDefault_def contentRow_def)

lemma handleSubmit_Mutate:
  assumes "handleSubmit fd = Mutate p"
  shows "genres fd \<noteq> [] \<and> (type fd = ''tv_show'' \<longrightarrow> (\<exists>n. episodes fd = Some n \<and> 0 < n)) \<and>
         getProp (ownProps p) ''genres'' = JArr (map JStr (genres fd)) \<and>
         getProp (ownProps p) ''type'' = JStr (type fd)"
proof -
  from assms have g: "genres fd \<noteq> []"
    by (auto simp: handleSubmit_def split: if_splits)
  from assms have e: "type fd = ''tv_show'' \<longrightarrow> (\<exists>n. episodes fd = Some n \<and> 0 < n)"
    by (cases "episodes fd") (auto simp: handleSubmit_def split: if_splits)
  from assms g e have p: "p = JObj
        [(''title'', JStr (title fd)),
         (''type'', JStr (type fd)),
         (''genres'', JArr (map JStr (genres fd))),
         (''duration'', orNull (duration fd)),
         (''rating'', JStr (rating fd)),
         (''status'', JStr (status fd)),
         (''description'', orNull (description fd)),
         (''thumbnailUrl'', orNull (thumbnailUrl fd)),
         (''videoUrl'', orNull (videoUrl fd)),
         (''trailerUrl'', orNull (trailerUrl fd)),
         (''releaseYear'', JNum (releaseYear fd)),
         (''director'', orNull (director fd)),
         (''writer'', orNull (writer fd)),
         (''cast'', if length (cast fd) > 0 then JArr (map JStr (cast fd)) else JNull),
         (''tags'', if length (tags fd) > 0 then JArr (map JStr (tags fd)) else JNull),
         (''episodes'', if type fd = ''tv_show''
                        then (case episodes fd of None \<Rightarrow> JNull | Some n \<Rightarrow> JNum n)
                        else JNull)]"
    unfolding handleSubmit_def by (simp split: if_splits option.splits)
  have "getProp (ownProps p) ''genres'' = JArr (map JStr (genres fd))"
    "getProp (ownProps p) ''type'' = JStr (type fd)"
    unfolding p by simp_all
  with g e show ?thesis by simp
qed

text \<open>
  Claim C9. "At least one genre" and "episodes > 0 for a TV show" are enforced by
  the upload form only: whatever the form submits has a genre, and a positive
  episode count when it is a TV show. The server's validation does not enforce
  either: a payload with an empty genre list, and a TV show payload without
  episodes, pass the insert schema, and \<open>POST /api/content\<close> stores them.
\<close>

theorem genres_and_episodes_checked_by_form_only:
  "(handleSubmit fd = Mutate p \<longrightarrow>
      genres fd \<noteq> [] \<and> (type fd = ''tv_show'' \<longrightarrow> (\<exists>n. episodes fd = Some n \<and> 0 < n)) \<and>
      getProp (ownProps p) ''genres'' = JArr (map JStr (genres fd)) \<and>
      getProp (ownProps p) ''type'' = JStr (type fd)) \<and>
   parse insertContentSchema [] emptyGenresPayload = Inr emptyGenresPayload \<and>
   parse insertContentSchema [] tvShowWithoutEpisodes = Inr tvShowWithoutEpisodes \<and>
   (sequenceAhead content db \<longrightarrow>
      (\<exists>c db'. POST_api_content now emptyGenresPayload db = (respond 200 (Row c), db') \<and>
         col c ''genres'' = SArray [] \<and>
         rows (db' ''content'') = rows (db ''content'') @ [c]) \<and>
      (\<exists>c db'. POST_api_content now tvShowWithoutEpisodes db = (respond 200 (Row c), db') \<and>
         col c ''type'' = SText ''tv_show'' \<and> col c ''episodes'' = SNull \<and>
         rows (db' ''content'') = rows (db ''content'') @ [c]))"
proof (intro conjI impI)
  assume "handleSubmit fd = Mutate p"
  from handleSubmit_Mutate[OF this]
  show "genres fd \<noteq> []" "type fd = ''tv_show'' \<Longrightarrow> \<exists>n. episodes fd = Some n \<and> 0 < n"
    "getProp (ownProps p) ''genres'' = JArr (map JStr (genres fd))"
    "getProp (ownProps p) ''type'' = JStr (type fd)"
    by simp_all
next
  show "parse insertContentSchema [] emptyGenresPayload = Inr emptyGenresPayload"
    by (rule parse_emptyGenresPayload)
  show "parse insertContentSchema [] tvShowWithoutEpisodes = Inr tvShowWithoutEpisodes"
    by (rule parse_tvShowWithoutEpisodes)
next
  assume ahead: "sequenceAhead content db"
  let ?c = "contentRow (lastId (db ''content'') + 1) ''X'' ''movie'' (SArray []) ''PG'' ''draft'' now"
  let ?db' = "db(''content'' := \<lparr>rows = rows (db ''content'') @ [?c],
                                     lastId = lastId (db ''content'') + 1\<rparr>)"
  have "POST_api_content now emptyGenresPayload db = (respond 200 (Row ?c), ?db')"
    by (rule POST_api_content_ok[OF parse_emptyGenresPayload buildRow_emptyGenresPayload _ ahead])
       (simp add: notNull_contentRow)
  moreover have "col ?c ''genres'' = SArray []" by (simp add: col_def contentRow_def)
  moreover have "rows (?db' ''content'') = rows (db ''content'') @ [?c]" by simp
  ultimately show "\<exists>c db'. POST_api_content now emptyGenresPayload db = (respond 200 (Row c), db') \<and>
         col c ''genres'' = SArray [] \<and>
         rows (db' ''content'') = rows (db ''content'') @ [c]"
    by (intro exI[of _ ?c] exI[of _ ?db'] conjI)
next
  assume ahead: "sequenceAhead content db"
  let ?c = "contentRow (lastId (db ''content'') + 1) ''X'' ''tv_show'' (SArray [SText ''Drama'']) ''PG'' ''draft'' now"
  let ?db' = "db(''content'' := \<lparr>rows = rows (db ''content'') @ [?c],
                                     lastId = lastId (db ''content'') + 1\<rparr>)"
  have "POST_api_content now tvShowWithoutEpisodes db = (respond 200 (Row ?c), ?db')"
    by (rule POST_api_content_ok[OF parse_tvShowWithoutEpisodes buildRow_tvShowWithoutEpisodes _ ahead])
       (simp add: notNull_contentRow)
  moreover have "col ?c ''type'' = SText ''tv_show''" "col ?c ''episodes'' = SNull"
    by (simp_all add: col_def contentRow_def)
  moreover have "rows (?db' ''content'') = rows (db ''content'') @ [?c]" by simp
  ultimately show "\<exists>c db'. POST_api_content now tvShowWithoutEpisodes db = (respond 200 (Row c), db') \<and>
         col c ''type'' = SText ''tv_show'' \<and> col c ''episodes'' = SNull \<and>
         rows (db' ''content'') = rows (db ''content'') @ [c]"
    by (intro exI[of _ ?c] exI[of _ ?db'] conjI)
qed

text \<open>The form refuses both payloads; the route stores both on the empty store.\<close>

theorem genres_and_episodes_checked_by_form_only_witness:
  "sequenceAhead content emptyDb \<and>
   handleSubmit \<lparr>title = ''X'', type = ''tv_show'', genres = [], duration = '''', rating = ''PG'',
        status = ''draft'', description = '''', thumbnailUrl = '''', videoUrl = '''',
        trailerUrl = '''', releaseYear = 2024, director = '''', writer = '''', cast = [],
        tags = [], episodes = None\<rparr> = Toast ''Please add at least one genre'' \<and>
   handleSubmit \<lparr>title = ''X'', type = ''tv_show'', genres = [''Drama''], duration = '''', rating = ''PG'',
        status = ''draft'', description = '''', thumbnailUrl = '''', videoUrl = '''',
        trailerUrl = '''', releaseYear = 2024, director = '''', writer = '''', cast = [],
        tags = [], episodes = None\<rparr> = Toast ''Please enter the number of episodes for TV shows'' \<and>
   (\<exists>p. handleSubmit \<lparr>title = ''X'', type = ''tv_show'', genres = [''Drama''], duration = '''', rating = ''PG'',
        status = ''draft'', description = '''', thumbnailUrl = '''', videoUrl = '''',
        trailerUrl = '''', releaseYear = 2024, director = '''', writer = '''', cast = [],
        tags = [], episodes = Some 8\<rparr> = Mutate p \<and>
        getProp (ownProps p) ''genres'' = JArr [JStr ''Drama'']) \<and>
   (\<exists>c db'. POST_api_content 1000 emptyGenresPayload emptyDb = (respond 200 (Row c), db') \<and>
         col c ''genres'' = SArray [] \<and> rows (db' ''content'') = [c]) \<and>
   (\<exists>c db'. POST_api_content 1000 tvShowWithoutEpisodes emptyDb = (respond 200 (Row c), db') \<and>
         col c ''type'' = SText ''tv_show'' \<and> col c ''episodes'' = SNull \<and>
         rows (db' ''content'') = [c])"
proof -
  let ?fd = "\<lparr>title = ''X'', type = ''tv_show'', genres = [''Drama''], duration = '''', rating = ''PG'',
        status = ''draft'', description = '''', thumbnailUrl = '''', videoUrl = '''',
        trailerUrl = '''', releaseYear = 2024, director = '''', writer = '''', cast = [],
        tags = [], episodes = Some 8\<rparr>"
  have r: "rows (emptyDb ''content'') = []" by (simp add: emptyDb_def)
  obtain p where p: "handleSubmit ?fd = Mutate p" by (simp add: handleSubmit_def)
  note inst = genres_and_episodes_checked_by_form_only[of ?fd p emptyDb 1000]
  from inst p have g: "getProp (ownProps p) ''genres'' = JArr [JStr ''Drama'']" by simp
  have t1: "handleSubmit \<lparr>title = ''X'', type = ''tv_show'', genres = [], duration = '''', rating = ''PG'',
        status = ''draft'', description = '''', thumbnailUrl = '''', videoUrl = '''',
        trailerUrl = '''', releaseYear = 2024, director = '''', writer = '''', cast = [],
        tags = [], episodes = None\<rparr> = Toast ''Please add at least one genre''"
    by (simp add: handleSubmit_def)
  have t2: "handleSubmit \<lparr>title = ''X'', type = ''tv_show'', genres = [''Drama''], duration = '''', rating = ''PG'',
        status = ''draft'', description = '''', thumbnailUrl = '''', videoUrl = '''',
        trailerUrl = '''', releaseYear = 2024, director = '''', writer = '''', cast = [],
        tags = [], episodes = None\<rparr> = Toast ''Please enter the number of episodes for TV shows''"
    by (simp add: handleSubmit_def)
  from inst sequenceAhead_emptyDb
  have 1: "\<exists>c db'. POST_api_content 1000 emptyGenresPayload emptyDb = (respond 200 (Row c), db') \<and>
         col c ''genres'' = SArray [] \<and> rows (db' ''content'') = [c]"
    and 2: "\<exists>c db'. POST_api_content 1000 tvShowWithoutEpisodes emptyDb = (respond 200 (Row c), db') \<and>
         col c ''type'' = SText ''tv_show'' \<and> col c ''episodes'' = SNull \<and>
         rows (db' ''content'') = [c]"
    unfolding r append_Nil by simp_all
  from p g have 3: "\<exists>p. handleSubmit ?fd = Mutate p \<and> getProp (ownProps p) ''genres'' = JArr [JStr ''Drama'']"
    by (intro exI[of _ p] conjI)
  from sequenceAhead_emptyDb t1 t2 3 1 2 show ?thesis by (intro conjI)
qed

section \<open>Variant fields\<close>

lemma analytics_usesSequence:
  "usesSequence (columns analytics) vals = (getProp vals ''id'' = JUndefined)"
  by (simp add: usesSequence_def table_defs)

lemma buildRow_shareEvent:
  "buildRow now nv (columns analytics) (ownProps shareEvent) =
     Inr [(''id'', SInt nv), (''contentId'', SNull), (''eventType'', SText ''share''),
          (''userId'', SNull), (''timestamp'', STimestamp now), (''metadata'', SNull)]"
  by (simp add: buildRow_def shareEvent_def table_defs evalDefault_def)

lemma POST_api_analytics_shareEvent:
  assumes ahead: "sequenceAhead analytics db"
  shows "POST_api_analytics now shareEvent db =
     (respond 200 (Row [(''id'', SInt (lastId (db ''analytics'') + 1)), (''contentId'', SNull),
          (''eventType'', SText ''share''), (''userId'', SNull), (''timestamp'', STimestamp now),
          (''metadata'', SNull)]),
      db(''analytics'' := \<lparr>rows = rows (db ''analytics'') @
          [[(''id'', SInt (lastId (db ''analytics'') + 1)), (''contentId'', SNull),
          (''eventType'', SText ''share''), (''userId'', SNull), (''timestamp'', STimestamp now),
          (''metadata'', SNull)]], lastId = lastId (db ''analytics'') + 1\<rparr>))"
proof -
  let ?e = "[(''id'', SInt (lastId (db ''analytics'') + 1)), (''contentId'', SNull),
          (''eventType'', SText ''share''), (''userId'', SNull), (''timestamp'', STimestamp now),
          (''metadata'', SNull)]"
  from ahead have i4: "int4 (lastId (db (tableName analytics)) + 1)"
    and fresh: "\<not> list_ex (\<lambda>r'. col r' ''id'' = SInt (lastId (db ''analytics'') + 1)) (rows (db ''analytics''))"
    by (simp_all add: sequenceAhead_def tableName_simps list_ex_iff list_all_iff)
  have u: "usesSequence (columns analytics) (ownProps shareEvent)"
    by (simp add: analytics_usesSequence shareEvent_def)
  from fresh have c: "checkConstraints (columns analytics) db (rows (db (tableName analytics))) ?e = None"
    by (simp add: checkConstraints_def notNullViolations_def uniqueViolations_def
        foreignKeyViolations_def table_defs col_def)
  from insertReturning_ok[of now db analytics "ownProps shareEvent" ?e, OF _ u i4 c]
    buildRow_shareEvent[of now "lastId (db ''analytics'') + 1"]
  show ?thesis
    by (simp add: POST_api_analytics_def parse_shareEvent createAnalyticsEvent_def tableName_simps)
qed

text \<open>
  Claim C10. The server's validation does not restrict the variant fields to their
  documented values: a content payload of type \<open>documentary\<close> and status \<open>archived\<close>,
  and an analytics payload of event type \<open>share\<close>, pass their insert schemas and are
  stored with these values.
\<close>

theorem variant_fields_not_restricted:
  "parse insertContentSchema [] unlistedVariants = Inr unlistedVariants \<and>
   parse insertAnalyticsSchema [] shareEvent = Inr shareEvent \<and>
   getProp (ownProps unlistedVariants) ''type'' = JStr ''documentary'' \<and>
   getProp (ownProps unlistedVariants) ''status'' = JStr ''archived'' \<and>
   getProp (ownProps shareEvent) ''eventType'' = JStr ''share'' \<and>
   (sequenceAhead content db \<longrightarrow>
      (\<exists>c db'. POST_api_content now unlistedVariants db = (respond 200 (Row c), db') \<and>
         col c ''type'' = SText ''documentary'' \<and> col c ''status'' = SText ''archived'' \<and>
         rows (db' ''content'') = rows (db ''content'') @ [c])) \<and>
   (sequenceAhead analytics db \<longrightarrow>
      (\<exists>e db'. POST_api_analytics now shareEvent db = (respond 200 (Row e), db') \<and>
         col e ''eventType'' = SText ''share'' \<and>
         rows (db' ''analytics'') = rows (db ''analytics'') @ [e]))"
proof (intro conjI impI)
  show "parse insertContentSchema [] unlistedVariants = Inr unlistedVariants"
    by (rule parse_unlistedVariants)
  show "parse insertAnalyticsSchema [] shareEvent = Inr shareEvent"
    by (rule parse_shareEvent)
  show "getProp (ownProps unlistedVariants) ''type'' = JStr ''documentary''"
    "getProp (ownProps unlistedVariants) ''status'' = JStr ''archived''"
    "getProp (ownProps shareEvent) ''eventType'' = JStr ''share''"
    by (simp_all add: unlistedVariants_def shareEvent_def)
next
  assume ahead: "sequenceAhead content db"
  let ?c = "contentRow (lastId (db ''content'') + 1) ''X'' ''documentary'' (SArray [SText ''Drama'']) ''PG'' ''archived'' now"
  let ?db' = "db(''content'' := \<lparr>rows = rows (db ''content'') @ [?c],
                                     lastId = lastId (db ''content'') + 1\<rparr>)"
  have "POST_api_content now unlistedVariants db = (respond 200 (Row ?c), ?db')"
    by (rule POST_api_content_ok[OF parse_unlistedVariants buildRow_unlistedVariants _ ahead])
       (simp add: notNull_contentRow)
  moreover have "col ?c ''type'' = SText ''documentary''" "col ?c ''status'' = SText ''archived''"
    by (simp_all add: col_def contentRow_def)
  moreover have "rows (?db' ''content'') = rows (db ''content'') @ [?c]" by simp
  ultimately show "\<exists>c db'. POST_api_content now unlistedVariants db = (respond 200 (Row c), db') \<and>
         col c ''type'' = SText ''documentary'' \<and> col c ''status'' = SText ''archived'' \<and>
         rows (db' ''content'') = rows (db ''content'') @ [c]"
    by (intro exI[of _ ?c] exI[of _ ?db'] conjI)
next
  assume ahead: "sequenceAhead analytics db"
  let ?e = "[(''id'', SInt (lastId (db ''analytics'') + 1)), (''contentId'', SNull),
          (''eventType'', SText ''share''), (''userId'', SNull), (''timestamp'', STimestamp now),
          (''metadata'', SNull)]"
  let ?db' = "db(''analytics'' := \<lparr>rows = rows (db ''analytics'') @ [?e],
                                     lastId = lastId (db ''analytics'') + 1\<rparr>)"
  have "POST_api_analytics now shareEvent db = (respond 200 (Row ?e), ?db')"
    by (rule POST_api_analytics_shareEvent[OF ahead])
  moreover have "col ?e ''eventType'' = SText ''share''" by (simp add: col_def)
  moreover have "rows (?db' ''analytics'') = rows (db ''analytics'') @ [?e]" by simp
  ultimately show "\<exists>e db'. POST_api_analytics now shareEvent db = (respond 200 (Row e), db') \<and>
         col e ''eventType'' = SText ''share'' \<and>
         rows (db' ''analytics'') = rows (db ''analytics'') @ [e]"
    by (intro exI[of _ ?e] exI[of _ ?db'] conjI)
qed

text \<open>Both are stored on the empty store.\<close>

theorem variant_fields_not_restricted_witness:
  "sequenceAhead content emptyDb \<and> sequenceAhead analytics emptyDb \<and>
   (\<exists>c db'. POST_api_content 1000 unlistedVariants emptyDb = (respond 200 (Row c), db') \<and>
         col c ''type'' = SText ''documentary'' \<and> col c ''status'' = SText ''archived'' \<and>
         rows (db' ''content'') = [c]) \<and>
   (\<exists>e db'. POST_api_analytics 1000 shareEvent emptyDb = (respond 200 (Row e), db') \<and>
         col e ''eventType'' = SText ''share'' \<and> rows (db' ''analytics'') = [e])"
proof -
  have r: "rows (emptyDb ''content'') = []" "rows (emptyDb ''analytics'') = []"
    by (simp_all add: emptyDb_def)
  from variant_fields_not_restricted[of emptyDb 1000] sequenceAhead_emptyDb
  show ?thesis unfolding r append_Nil by simp
qed

section \<open>Deleting content\<close>









section \<open>Path identifiers\<close>






section \<open>Partial updates\<close>

lemma upcomingDb_rows:
  "rows (upcomingDb ''upcoming_content'') =
     [[(''id'', SInt 1), (''title'', SText ''U''), (''type'', SText ''movie''),
       (''genres'', SArray [SText ''Drama'']), (''episodes'', SNull),
       (''releaseDate'', STimestamp 1735689600000), (''description'', SText ''soon''),
       (''thumbnailUrl'', SNull), (''trailerUrl'', SNull), (''sectionOrder'', SInt 0),
       (''createdAt'', STimestamp 1000)]]"
  by code_simp

lemma upcoming_no_updatedAt: "''updatedAt'' \<notin> fst ` set (columns upcomingContent)"
  by (simp add: table_defs)

lemma partial_upcoming_keys:
  "map fst (shape (partial (insertUpcomingContentSchema Date))) =
     [''title'', ''type'', ''genres'', ''episodes'', ''releaseDate'', ''description'',
      ''thumbnailUrl'', ''trailerUrl'', ''sectionOrder'']"
  by (simp add: partial_def insertUpcomingContentSchema_def zodExtend_def omit_def
      createInsertSchema_def table_defs)

lemma validated_upcoming_no_createdAt:
  assumes "parse (partial (insertUpcomingContentSchema Date)) [] b = Inr patch"
  shows "\<not> supplied patch ''createdAt''"
proof -
  from assms have p: "parse (ZObject (shape (partial (insertUpcomingContentSchema Date)))) [] b = Inr patch"
    using partial_shape[of "insertUpcomingContentSchema Date"] by simp
  have "''createdAt'' \<notin> fst ` set (shape (partial (insertUpcomingContentSchema Date)))"
    unfolding set_map[symmetric] partial_upcoming_keys by simp
  from parse_object_other[OF p this] show ?thesis by (simp add: supplied_def)
qed

lemma parse_empty_partial: "parse (partial insertContentSchema) [] (JObj []) = Inr (JObj [])"
  by code_simp

lemma empty_not_supplied: "\<not> supplied (JObj []) k"
  by (simp add: supplied_def)

text \<open>
  Claim C3. On a store whose content rows have the table's columns: whenever
  \<open>updateContent\<close> returns, it returns the absence marker exactly when no row has the
  identifier, and then no row is changed; otherwise it returns the rewritten row, in
  which every field that the payload does not supply is unchanged (the last-modified
  timestamp apart), every supplied column holds the supplied value, and
  \<open>updatedAt\<close> is the current time. It does return for every validated partial payload
  whose numbers are in range and every identifier in range; with the empty payload it
  changes nothing but \<open>updatedAt\<close>, which is refreshed all the same.
  \<open>updateUpcomingContent\<close> leaves every field that is not supplied unchanged: the
  table has no \<open>updatedAt\<close> column, and no validated payload supplies \<open>createdAt\<close>.
\<close>

theorem updateContent_partial:
  assumes wf: "hasColumns content db"
  shows
   "(updateContent now id' patch db = (Inr res, db') \<longrightarrow>
       (res = None \<longrightarrow>
          (\<forall>r \<in> set (rows (db ''content'')). idParam id' \<noteq> Inr (col r ''id'')) \<and>
          rows (db' ''content'') = rows (db ''content'')) \<and>
       (\<forall>r'. res = Some r' \<longrightarrow>
          (\<exists>r \<in> set (rows (db ''content'')).
             idParam id' = Inr (col r ''id'') \<and>
             (\<forall>k. \<not> supplied patch k \<and> k \<noteq> ''updatedAt'' \<longrightarrow> col r' k = col r k) \<and>
             (\<forall>k c. (k, c) \<in> set (columns content) \<and> supplied patch k \<and> k \<noteq> ''updatedAt'' \<longrightarrow>
                 mapToDriverValue (colType c) (getProp (ownProps patch) k) = Inr (col r' k)) \<and>
             col r' ''updatedAt'' = STimestamp now \<and>
             r' \<in> set (rows (db' ''content''))))) \<and>
    (parse (partial insertContentSchema) [] b = Inr patch \<and> numbersInRange patch \<and> int4 i \<longrightarrow>
       (\<exists>res db'. updateContent now (Num i) patch db = (Inr res, db'))) \<and>
    (int4 i \<longrightarrow>
       (\<exists>res db'. updateContent now (Num i) (JObj []) db = (Inr res, db') \<and>
          (\<forall>r'. res = Some r' \<longrightarrow>
             (\<exists>r \<in> set (rows (db ''content'')).
                col r ''id'' = SInt i \<and>
                (\<forall>k. k \<noteq> ''updatedAt'' \<longrightarrow> col r' k = col r k) \<and>
                col r' ''updatedAt'' = STimestamp now)))) \<and>
    (updateUpcomingContent id' upatch db = (Inr (Some u'), db'') \<longrightarrow>
       (\<exists>u \<in> set (rows (db ''upcoming_content'')).
          idParam id' = Inr (col u ''id'') \<and>
          (\<forall>k. \<not> supplied upatch k \<longrightarrow> col u' k = col u k))) \<and>
    (parse (partial (insertUpcomingContentSchema Date)) [] ub = Inr upatch \<longrightarrow>
       \<not> supplied upatch ''createdAt'') \<and>
    ''updatedAt'' \<notin> fst ` set (columns upcomingContent)"
proof (intro conjI)
  show "updateContent now id' patch db = (Inr res, db') \<longrightarrow>
       (res = None \<longrightarrow>
          (\<forall>r \<in> set (rows (db ''content'')). idParam id' \<noteq> Inr (col r ''id'')) \<and>
          rows (db' ''content'') = rows (db ''content'')) \<and>
       (\<forall>r'. res = Some r' \<longrightarrow>
          (\<exists>r \<in> set (rows (db ''content'')).
             idParam id' = Inr (col r ''id'') \<and>
             (\<forall>k. \<not> supplied patch k \<and> k \<noteq> ''updatedAt'' \<longrightarrow> col r' k = col r k) \<and>
             (\<forall>k c. (k, c) \<in> set (columns content) \<and> supplied patch k \<and> k \<noteq> ''updatedAt'' \<longrightarrow>
                 mapToDriverValue (colType c) (getProp (ownProps patch) k) = Inr (col r' k)) \<and>
             col r' ''updatedAt'' = STimestamp now \<and>
             r' \<in> set (rows (db' ''content''))))"
    using updateContent_frame[OF wf] by (intro impI)
  show "parse (partial insertContentSchema) [] b = Inr patch \<and> numbersInRange patch \<and> int4 i \<longrightarrow>
       (\<exists>res db'. updateContent now (Num i) patch db = (Inr res, db'))"
    using updateContent_validated_returns[OF _ _ _ wf] by (intro impI) (elim conjE)
  show "int4 i \<longrightarrow>
       (\<exists>res db'. updateContent now (Num i) (JObj []) db = (Inr res, db') \<and>
          (\<forall>r'. res = Some r' \<longrightarrow>
             (\<exists>r \<in> set (rows (db ''content'')).
                col r ''id'' = SInt i \<and>
                (\<forall>k. k \<noteq> ''updatedAt'' \<longrightarrow> col r' k = col r k) \<and>
                col r' ''updatedAt'' = STimestamp now)))"
  proof
    assume i: "int4 i"
    have rng: "numbersInRange (JObj [])" by (simp add: numbersInRange_def)
    from updateContent_validated_returns[OF parse_empty_partial rng i wf, of now]
    obtain res db' where u: "updateContent now (Num i) (JObj []) db = (Inr res, db')" by blast
    have "\<forall>r'. res = Some r' \<longrightarrow>
             (\<exists>r \<in> set (rows (db ''content'')).
                col r ''id'' = SInt i \<and>
                (\<forall>k. k \<noteq> ''updatedAt'' \<longrightarrow> col r' k = col r k) \<and>
                col r' ''updatedAt'' = STimestamp now)"
    proof (intro allI impI)
      fix r' assume "res = Some r'"
      with updateContent_frame[OF wf u] obtain r where r: "r \<in> set (rows (db ''content''))"
        and id: "idParam (Num i) = Inr (col r ''id'')"
        and fr: "\<forall>k. \<not> supplied (JObj []) k \<and> k \<noteq> ''updatedAt'' \<longrightarrow> col r' k = col r k"
        and up: "col r' ''updatedAt'' = STimestamp now"
        by blast
      from id i have id': "col r ''id'' = SInt i" by simp
      from fr have fr': "\<forall>k. k \<noteq> ''updatedAt'' \<longrightarrow> col r' k = col r k"
        by (simp add: empty_not_supplied)
      show "\<exists>r \<in> set (rows (db ''content'')).
                col r ''id'' = SInt i \<and>
                (\<forall>k. k \<noteq> ''updatedAt'' \<longrightarrow> col r' k = col r k) \<and>
                col r' ''updatedAt'' = STimestamp now"
        by (intro bexI[of _ r] conjI) (fact id' fr' up r)+
    qed
    with u show "\<exists>res db'. updateContent now (Num i) (JObj []) db = (Inr res, db') \<and>
          (\<forall>r'. res = Some r' \<longrightarrow>
             (\<exists>r \<in> set (rows (db ''content'')).
                col r ''id'' = SInt i \<and>
                (\<forall>k. k \<noteq> ''updatedAt'' \<longrightarrow> col r' k = col r k) \<and>
                col r' ''updatedAt'' = STimestamp now))"
      by (intro exI[of _ res] exI[of _ db'] conjI)
  qed
  show "updateUpcomingContent id' upatch db = (Inr (Some u'), db'') \<longrightarrow>
       (\<exists>u \<in> set (rows (db ''upcoming_content'')).
          idParam id' = Inr (col u ''id'') \<and>
          (\<forall>k. \<not> supplied upatch k \<longrightarrow> col u' k = col u k))"
    using updateUpcomingContent_frame by (intro impI)
  show "parse (partial (insertUpcomingContentSchema Date)) [] ub = Inr upatch \<longrightarrow>
       \<not> supplied upatch ''createdAt''"
    using validated_upcoming_no_createdAt by (intro impI)
  show "''updatedAt'' \<notin> fst ` set (columns upcomingContent)"
    by (rule upcoming_no_updatedAt)
qed

lemma hasColumns_exampleDb: "hasColumns content exampleDb"
  by code_simp

lemma parse_statusPatch: "parse (partial insertContentSchema) [] statusPatch = Inr statusPatch"
  by code_simp

lemma updateContent_statusPatch:
  "\<exists>r' db'. updateContent 5000 (Num 1) statusPatch exampleDb = (Inr (Some r'), db') \<and>
     col r' ''status'' = SText ''published''"
proof -
  have "fst (updateContent 5000 (Num 1) statusPatch exampleDb) =
     Inr (Some
      [(''id'', SInt 1), (''title'', SText ''X''), (''type'', SText ''movie''),
       (''genres'', SArray [SText ''Drama'']), (''duration'', SNull),
       (''rating'', SText ''PG''), (''status'', SText ''published''), (''views'', SInt 0),
       (''description'', SNull), (''thumbnailUrl'', SNull), (''videoUrl'', SNull),
       (''trailerUrl'', SNull), (''releaseYear'', SNull), (''director'', SNull),
       (''writer'', SNull), (''cast'', SNull), (''tags'', SNull), (''episodes'', SNull),
       (''createdAt'', STimestamp 1000), (''updatedAt'', STimestamp 5000)])"
    by code_simp
  then show ?thesis
    by (cases "updateContent 5000 (Num 1) statusPatch exampleDb") (simp add: col_def)
qed

lemma updateUpcomingContent_titlePatch:
  "\<exists>u' db'. updateUpcomingContent (Num 1) titlePatch upcomingDb = (Inr (Some u'), db') \<and>
     col u' ''title'' = SText ''Z''"
proof -
  have "fst (updateUpcomingContent (Num 1) titlePatch upcomingDb) =
     Inr (Some
      [(''id'', SInt 1), (''title'', SText ''Z''), (''type'', SText ''movie''),
       (''genres'', SArray [SText ''Drama'']), (''episodes'', SNull),
       (''releaseDate'', STimestamp 1735689600000), (''description'', SText ''soon''),
       (''thumbnailUrl'', SNull), (''trailerUrl'', SNull), (''sectionOrder'', SInt 0),
       (''createdAt'', STimestamp 1000)])"
    by code_simp
  then show ?thesis
    by (cases "updateUpcomingContent (Num 1) titlePatch upcomingDb") (simp add: col_def)
qed

lemma exampleDb_row1:
  assumes "r \<in> set (rows (exampleDb ''content''))" and "col r ''id'' = SInt 1"
  shows "col r ''title'' = SText ''X'' \<and> col r ''createdAt'' = STimestamp 1000 \<and>
         col r ''status'' = SText ''draft''"
  using assms unfolding exampleDb_content by (auto simp: col_def)

lemma upcomingDb_row1:
  assumes "u \<in> set (rows (upcomingDb ''upcoming_content''))"
  shows "col u ''createdAt'' = STimestamp 1000"
  using assms unfolding upcomingDb_rows by (auto simp: col_def)

lemma bex_conj5E:
  assumes "\<exists>r \<in> S. A r \<and> B r \<and> C r \<and> D r \<and> E r"
  obtains r where "r \<in> S" "A r" "B r" "C r" "D r" "E r"
  using assms by blast

lemma bex_conj3E:
  assumes "\<exists>r \<in> S. A r \<and> B r \<and> C r"
  obtains r where "r \<in> S" "A r" "B r" "C r"
  using assms by blast

lemma bex_conj2E:
  assumes "\<exists>r \<in> S. A r \<and> B r"
  obtains r where "r \<in> S" "A r" "B r"
  using assms by blast

lemma ex2_conjE:
  assumes "\<exists>x y. A x y \<and> B x"
  obtains x y where "A x y" "B x"
  using assms by blast

text \<open>On the example store: a status update of content 1, the empty update, an update
  of an identifier that no row has, and a title update of an upcoming row.\<close>

theorem updateContent_partial_witness:
  "hasColumns content exampleDb \<and>
   parse (partial insertContentSchema) [] statusPatch = Inr statusPatch \<and>
   numbersInRange statusPatch \<and> int4 1 \<and>
   (\<exists>r' db'. updateContent 5000 (Num 1) statusPatch exampleDb = (Inr (Some r'), db') \<and>
      col r' ''status'' = SText ''published'' \<and> col r' ''title'' = SText ''X'' \<and>
      col r' ''createdAt'' = STimestamp 1000 \<and> col r' ''updatedAt'' = STimestamp 5000) \<and>
   (\<exists>r' db'. updateContent 5000 (Num 1) (JObj []) exampleDb = (Inr (Some r'), db') \<and>
      col r' ''status'' = SText ''draft'' \<and> col r' ''title'' = SText ''X'' \<and>
      col r' ''createdAt'' = STimestamp 1000 \<and> col r' ''updatedAt'' = STimestamp 5000) \<and>
   fst (updateContent 5000 (Num 7) statusPatch exampleDb) = Inr None \<and>
   (\<exists>u' db'. updateUpcomingContent (Num 1) titlePatch upcomingDb = (Inr (Some u'), db') \<and>
      col u' ''title'' = SText ''Z'' \<and> col u' ''createdAt'' = STimestamp 1000)"
proof -
  note wf = hasColumns_exampleDb
  have rng: "numbersInRange statusPatch" by code_simp
  have i: "int4 1" by (simp add: int4_def)
  have ns: "\<not> supplied statusPatch ''title''" "\<not> supplied statusPatch ''createdAt''"
    "\<not> supplied titlePatch ''createdAt''"
    by (simp_all add: supplied_def statusPatch_def titlePatch_def)
  \<comment> \<open>a supplied field\<close>
  from updateContent_statusPatch obtain r' db' where
    u: "updateContent 5000 (Num 1) statusPatch exampleDb = (Inr (Some r'), db')"
    and st: "col r' ''status'' = SText ''published''" by (rule ex2_conjE)
  note T1 = updateContent_partial[OF wf, where now = 5000 and id' = "Num 1" and patch = statusPatch
      and res = "Some r'" and db' = db', THEN conjunct1, THEN mp, OF u, THEN conjunct2,
      THEN spec, of r', THEN mp, OF refl]
  from T1 obtain r where r: "r \<in> set (rows (exampleDb ''content''))"
    and id: "idParam (Num 1) = Inr (col r ''id'')"
    and fr: "\<forall>k. \<not> supplied statusPatch k \<and> k \<noteq> ''updatedAt'' \<longrightarrow> col r' k = col r k"
    and up: "col r' ''updatedAt'' = STimestamp 5000"
    by (rule bex_conj5E)
  from id have "col r ''id'' = SInt 1" by (simp add: int4_def)
  note row = exampleDb_row1[OF r this]
  from fr[THEN spec, of "''title''"] ns(1) row
  have t: "col r' ''title'' = SText ''X''" by simp
  from fr[THEN spec, of "''createdAt''"] ns(2) row
  have c: "col r' ''createdAt'' = STimestamp 1000" by simp
  have A: "\<exists>r' db'. updateContent 5000 (Num 1) statusPatch exampleDb = (Inr (Some r'), db') \<and>
      col r' ''status'' = SText ''published'' \<and> col r' ''title'' = SText ''X'' \<and>
      col r' ''createdAt'' = STimestamp 1000 \<and> col r' ''updatedAt'' = STimestamp 5000"
    by (intro exI[of _ r'] exI[of _ db'] conjI) (fact u st t c up)+
  \<comment> \<open>the empty payload\<close>
  note T2 = updateContent_partial[OF wf, where i = 1 and now = 5000, THEN conjunct2,
      THEN conjunct2, THEN conjunct1, THEN mp, OF i]
  from T2 obtain res dbe where ue: "updateContent 5000 (Num 1) (JObj []) exampleDb = (Inr res, dbe)"
    and fe: "\<forall>r'. res = Some r' \<longrightarrow>
             (\<exists>r \<in> set (rows (exampleDb ''content'')).
                col r ''id'' = SInt 1 \<and>
                (\<forall>k. k \<noteq> ''updatedAt'' \<longrightarrow> col r' k = col r k) \<and>
                col r' ''updatedAt'' = STimestamp 5000)"
    by (elim exE conjE)
  have "fst (updateContent 5000 (Num 1) (JObj []) exampleDb) \<noteq> Inr None" by code_simp
  with ue obtain re where re: "res = Some re" by (cases res) auto
  from fe[THEN spec, of re, THEN mp, OF re]
  obtain r2 where r2: "r2 \<in> set (rows (exampleDb ''content''))"
    and id2: "col r2 ''id'' = SInt 1"
    and fr2: "\<forall>k. k \<noteq> ''updatedAt'' \<longrightarrow> col re k = col r2 k"
    and up2: "col re ''updatedAt'' = STimestamp 5000" by (rule bex_conj3E)
  note row2 = exampleDb_row1[OF r2 id2]
  from fr2[THEN spec, of "''status''"] fr2[THEN spec, of "''title''"]
    fr2[THEN spec, of "''createdAt''"] row2
  have e: "col re ''status'' = SText ''draft''" "col re ''title'' = SText ''X''"
    "col re ''createdAt'' = STimestamp 1000" by simp_all
  from ue re have ue': "updateContent 5000 (Num 1) (JObj []) exampleDb = (Inr (Some re), dbe)"
    by simp
  have B: "\<exists>r' db'. updateContent 5000 (Num 1) (JObj []) exampleDb = (Inr (Some r'), db') \<and>
      col r' ''status'' = SText ''draft'' \<and> col r' ''title'' = SText ''X'' \<and>
      col r' ''createdAt'' = STimestamp 1000 \<and> col r' ''updatedAt'' = STimestamp 5000"
    by (intro exI[of _ re] exI[of _ dbe] conjI) (fact ue' e up2)+
  have C: "fst (updateContent 5000 (Num 7) statusPatch exampleDb) = Inr None" by code_simp
  \<comment> \<open>upcoming content\<close>
  from updateUpcomingContent_titlePatch obtain u' dbu where
    uu: "updateUpcomingContent (Num 1) titlePatch upcomingDb = (Inr (Some u'), dbu)"
    and ti: "col u' ''title'' = SText ''Z''" by (rule ex2_conjE)
  have wfu: "hasColumns content upcomingDb" by code_simp
  note T3 = updateContent_partial[OF wfu, where id' = "Num 1" and upatch = titlePatch and u' = u'
      and db'' = dbu, THEN conjunct2, THEN conjunct2, THEN conjunct2, THEN conjunct1,
      THEN mp, OF uu]
  from T3 obtain u0 where u0: "u0 \<in> set (rows (upcomingDb ''upcoming_content''))"
    and "idParam (Num 1) = Inr (col u0 ''id'')"
    and fu: "\<forall>k. \<not> supplied titlePatch k \<longrightarrow> col u' k = col u0 k" by (rule bex_conj2E)
  from upcomingDb_row1[OF u0] fu[THEN spec, of "''createdAt''"] ns(3)
  have cu: "col u' ''createdAt'' = STimestamp 1000" by simp
  have D: "\<exists>u' db'. updateUpcomingContent (Num 1) titlePatch upcomingDb = (Inr (Some u'), db') \<and>
      col u' ''title'' = SText ''Z'' \<and> col u' ''createdAt'' = STimestamp 1000"
    by (intro exI[of _ u'] exI[of _ dbu] conjI) (fact uu ti cu)+
  from wf parse_statusPatch rng i A B C D show ?thesis by (intro conjI)
qed

section \<open>Release dates that do not parse\<close>

lemma parse_object_Inl:
  assumes "parse (ZObject sh) p (JObj kvs) = Inl es" and "e \<in> set es"
  obtains kt es' where "kt \<in> set sh"
    and "parse (snd kt) (p @ [Key (fst kt)]) (getProp kvs (fst kt)) = Inl es'" and "e \<in> set es'"
proof -
  from assms(1) have m: "mergeResults
                  (map (\<lambda>kt. map_sum id (Pair (fst kt))
                                (parse (snd kt) (p @ [Key (fst kt)]) (getProp kvs (fst kt))))
                       sh) = Inl es"
    by (simp split: sum.splits)
  from mergeResults_Inl[OF m assms(2)] obtain es' where
    "Inl es' \<in> set (map (\<lambda>kt. map_sum id (Pair (fst kt))
                                (parse (snd kt) (p @ [Key (fst kt)]) (getProp kvs (fst kt)))) sh)"
    and e: "e \<in> set es'"
    by blast
  then obtain kt where kt: "kt \<in> set sh"
    and p': "map_sum id (Pair (fst kt)) (parse (snd kt) (p @ [Key (fst kt)]) (getProp kvs (fst kt))) = Inl es'"
    by auto
  from p' have "parse (snd kt) (p @ [Key (fst kt)]) (getProp kvs (fst kt)) = Inl es'"
    by (cases "parse (snd kt) (p @ [Key (fst kt)]) (getProp kvs (fst kt))") auto
  with kt e that show ?thesis by blast
qed

lemma upcoming_shape: "insertUpcomingContentSchema Date = ZObject (shape (insertUpcomingContentSchema Date))"
  by (simp add: insertUpcomingContentSchema_def zodExtend_def)

lemma upcoming_keys:
  "map fst (shape (insertUpcomingContentSchema Date)) =
     [''title'', ''type'', ''genres'', ''episodes'', ''releaseDate'', ''description'',
      ''thumbnailUrl'', ''trailerUrl'', ''sectionOrder'']"
  by (simp add: insertUpcomingContentSchema_def zodExtend_def omit_def
      createInsertSchema_def table_defs)

lemma upcoming_releaseDate:
  "map_of (shape (insertUpcomingContentSchema Date)) ''releaseDate'' =
     Some (ZTransform ZString (\<lambda>str. JDate (Date str)))"
  by (simp add: insertUpcomingContentSchema_def zodExtend_def omit_def
      createInsertSchema_def table_defs)

lemma partial_upcoming_releaseDate:
  "map_of (shape (partial (insertUpcomingContentSchema Date))) ''releaseDate'' =
     Some (ZOptional (ZTransform ZString (\<lambda>str. JDate (Date str))))"
  by (simp add: partial_def insertUpcomingContentSchema_def zodExtend_def omit_def
      createInsertSchema_def table_defs)

lemma map_of_mem_distinct:
  "distinct (map fst xs) \<Longrightarrow> (k, v) \<in> set xs \<Longrightarrow> map_of xs k = Some v"
  by simp

text \<open>The coercion of a string never fails.\<close>

lemma releaseDate_coercion:
  "parse (ZTransform ZString (\<lambda>str. JDate (Date str))) p (JStr s) = Inr (JDate (Date (JStr s)))"
  by simp

lemma releaseDate_no_issue:
  assumes sh: "distinct (map fst sh)"
    and rd: "map_of sh ''releaseDate'' = Some t"
    and ok: "\<exists>w. parse t [Key ''releaseDate''] (getProp kvs ''releaseDate'') = Inr w"
    and p: "parse (ZObject sh) [] (JObj kvs) = Inl es" and e: "e \<in> set es"
  shows "take 1 (path e) \<noteq> [Key ''releaseDate'']"
proof
  assume a: "take 1 (path e) = [Key ''releaseDate'']"
  from p e obtain kt es' where kt: "kt \<in> set sh"
    and f: "parse (snd kt) ([] @ [Key (fst kt)]) (getProp kvs (fst kt)) = Inl es'" and e': "e \<in> set es'"
    by (rule parse_object_Inl)
  from parse_issue_path[OF f e'] have "take 1 (path e) = [Key (fst kt)]" by simp
  with a have k: "fst kt = ''releaseDate''" by simp
  from kt have "(fst kt, snd kt) \<in> set sh" by simp
  from map_of_mem_distinct[OF sh this] k rd have "snd kt = t" by simp
  with f k ok show False by simp
qed

lemma upcoming_distinct: "distinct (map fst (shape (insertUpcomingContentSchema Date)))"
  unfolding upcoming_keys by simp

lemma partial_upcoming_distinct:
  "distinct (map fst (shape (partial (insertUpcomingContentSchema Date))))"
  unfolding partial_upcoming_keys by simp

lemma upcoming_releaseDate_column:
  "(''releaseDate'', notNull (timestamp ''release_date'')) \<in> set (columns upcomingContent)"
  by (simp add: table_defs)

lemma assignments_invalid_date:
  assumes "getProp vals ''releaseDate'' = JDate None"
  shows "\<exists>e. assignments (columns upcomingContent) vals = Inl e"
proof -
  let ?f = "\<lambda>kc. map_sum id (Pair (fst kc))
                     (mapToDriverValue (colType (snd kc)) (getProp vals (fst kc)))"
  let ?xs = "filter (\<lambda>kc. getProp vals (fst kc) \<noteq> JUndefined) (columns upcomingContent)"
  from assms upcoming_releaseDate_column
  have mem: "(''releaseDate'', notNull (timestamp ''release_date'')) \<in> set ?xs" by simp
  have "?f (''releaseDate'', notNull (timestamp ''release_date'')) = Inl InvalidTimeValue"
    using assms by (simp add: table_defs)
  moreover from mem have "?f (''releaseDate'', notNull (timestamp ''release_date'')) \<in> ?f ` set ?xs"
    by (rule imageI)
  ultimately have "Inl InvalidTimeValue \<in> set (map ?f ?xs)" by (simp only: set_map)
  from sequenceSum_has_Inl[OF this] show ?thesis by (simp add: assignments_def)
qed

lemma updateUpcomingContent_invalid_date:
  assumes "getProp (ownProps v) ''releaseDate'' = JDate None"
  shows "\<exists>e. updateUpcomingContent id' v db = (Inl e, db)"
proof -
  from assignments_invalid_date[OF assms] obtain e where
    "assignments (columns upcomingContent) (ownProps v) = Inl e" by blast
  then show ?thesis by (simp add: updateUpcomingContent_def updateSetWhereReturning_def)
qed

text \<open>
  Claim C1, as amended. For an upcoming-content write whose \<open>releaseDate\<close> is a string
  that is not parseable as a date, the schema coercion does not fail: the field becomes
  an invalid date, and no validation issue names \<open>releaseDate\<close>.
  \<open>PUT /api/upcoming-content/:id\<close> then responds 500, the data-access layer raising on the
  invalid date, unless another field of the body fails validation: then it responds 400
  with the issues of the other fields. It never responds with a success or 404, and
  the store is unchanged.
\<close>

theorem unparseable_releaseDate_is_coerced:
  assumes rd: "getProp kvs ''releaseDate'' = JStr s" and un: "Date (JStr s) = None"
  shows
   "parse (ZTransform ZString (\<lambda>str. JDate (Date str))) [Key ''releaseDate''] (JStr s) = Inr (JDate None) \<and>
    (\<forall>es. parse (insertUpcomingContentSchema Date) [] (JObj kvs) = Inl es \<longrightarrow>
        (\<forall>e \<in> set es. take 1 (path e) \<noteq> [Key ''releaseDate''])) \<and>
    (\<forall>v. parse (insertUpcomingContentSchema Date) [] (JObj kvs) = Inr v \<longrightarrow>
        getProp (ownProps v) ''releaseDate'' = JDate None) \<and>
    (\<forall>es. parse (partial (insertUpcomingContentSchema Date)) [] (JObj kvs) = Inl es \<longrightarrow>
        PUT_api_upcoming_content_id Date pid (JObj kvs) db =
          (respond 400 (ErrorDetails ''Invalid data'' es), db) \<and>
        (\<forall>e \<in> set es. take 1 (path e) \<noteq> [Key ''releaseDate''])) \<and>
    (\<forall>v. parse (partial (insertUpcomingContentSchema Date)) [] (JObj kvs) = Inr v \<longrightarrow>
        PUT_api_upcoming_content_id Date pid (JObj kvs) db =
          (respond 500 (Error ''Failed to update upcoming content''), db))"
proof (intro conjI allI impI ballI)
  show c: "parse (ZTransform ZString (\<lambda>str. JDate (Date str))) [Key ''releaseDate''] (JStr s) = Inr (JDate None)"
    using un by simp
  have ok1: "\<exists>w. parse (ZTransform ZString (\<lambda>str. JDate (Date str))) [Key ''releaseDate'']
                 (getProp kvs ''releaseDate'') = Inr w"
    using rd by simp
  have ok2: "\<exists>w. parse (ZOptional (ZTransform ZString (\<lambda>str. JDate (Date str)))) [Key ''releaseDate'']
                 (getProp kvs ''releaseDate'') = Inr w"
    using rd by simp
  {
    fix es e assume p: "parse (insertUpcomingContentSchema Date) [] (JObj kvs) = Inl es"
      and e: "e \<in> set es"
    from p have p': "parse (ZObject (shape (insertUpcomingContentSchema Date))) [] (JObj kvs) = Inl es"
      using upcoming_shape[of Date] by simp
    show "take 1 (path e) \<noteq> [Key ''releaseDate'']"
      by (rule releaseDate_no_issue[OF upcoming_distinct upcoming_releaseDate ok1 p' e])
  }
  {
    fix v assume p: "parse (insertUpcomingContentSchema Date) [] (JObj kvs) = Inr v"
    from p have p': "parse (ZObject (shape (insertUpcomingContentSchema Date))) [] (JObj kvs) = Inr v"
      using upcoming_shape[of Date] by simp
    have mem: "(''releaseDate'', ZTransform ZString (\<lambda>str. JDate (Date str)))
        \<in> set (shape (insertUpcomingContentSchema Date))"
      using upcoming_releaseDate[of Date] by (rule map_of_SomeD)
    from parse_object_field[OF p' upcoming_distinct mem] rd un
    show "getProp (ownProps v) ''releaseDate'' = JDate None" by simp
  }
  {
    fix es assume p: "parse (partial (insertUpcomingContentSchema Date)) [] (JObj kvs) = Inl es"
    then show "PUT_api_upcoming_content_id Date pid (JObj kvs) db =
          (respond 400 (ErrorDetails ''Invalid data'' es), db)"
      by (simp add: PUT_api_upcoming_content_id_def)
    fix e assume e: "e \<in> set es"
    from p have p': "parse (ZObject (shape (partial (insertUpcomingContentSchema Date)))) [] (JObj kvs) = Inl es"
      using partial_shape[of "insertUpcomingContentSchema Date"] by simp
    show "take 1 (path e) \<noteq> [Key ''releaseDate'']"
      by (rule releaseDate_no_issue[OF partial_upcoming_distinct partial_upcoming_releaseDate ok2 p' e])
  }
  {
    fix v assume p: "parse (partial (insertUpcomingContentSchema Date)) [] (JObj kvs) = Inr v"
    from p have p': "parse (ZObject (shape (partial (insertUpcomingContentSchema Date)))) [] (JObj kvs) = Inr v"
      using partial_shape[of "insertUpcomingContentSchema Date"] by simp
    have mem: "(''releaseDate'', ZOptional (ZTransform ZString (\<lambda>str. JDate (Date str))))
        \<in> set (shape (partial (insertUpcomingContentSchema Date)))"
      using partial_upcoming_releaseDate[of Date] by (rule map_of_SomeD)
    from parse_object_field[OF p' partial_upcoming_distinct mem] rd un
    have "getProp (ownProps v) ''releaseDate'' = JDate None" by simp
    from updateUpcomingContent_invalid_date[OF this] obtain e where
      "updateUpcomingContent (parseInt pid) v db = (Inl e, db)" by blast
    with p show "PUT_api_upcoming_content_id Date pid (JObj kvs) db =
          (respond 500 (Error ''Failed to update upcoming content''), db)"
      by (simp add: PUT_api_upcoming_content_id_def)
  }
qed

text \<open>The creation route has no branch that answers 400.\<close>

lemma POST_api_upcoming_content_status:
  "statusCode (fst (POST_api_upcoming_content Date now b db)) = 200 \<or>
   statusCode (fst (POST_api_upcoming_content Date now b db)) = 500"
proof (cases "b = JUndefined \<or> b = JNull")
  case True
  then show ?thesis by (simp add: POST_api_upcoming_content_def respond_def)
next
  case False
  let ?data = "JObj (setProp (ownProps b) ''releaseDate''
                            (JDate (Date (getProp (ownProps b) ''releaseDate''))))"
  obtain res db' where c: "createUpcomingContent now ?data db = (res, db')"
    by (cases "createUpcomingContent now ?data db")
  with False show ?thesis
    by (cases res) (simp_all add: POST_api_upcoming_content_def respond_def Let_def)
qed

lemma exampleDate_unparseable: "exampleDate (JStr ''not-a-date'') = None" by code_simp

lemma parse_badDatePayload: "parse (insertUpcomingContentSchema exampleDate) [] badDatePayload =
     Inr (JObj [(''title'', JStr ''U''), (''type'', JStr ''movie''),
                (''genres'', JArr [JStr ''Drama'']), (''releaseDate'', JDate None),
                (''description'', JStr ''soon'')])" by code_simp

lemma PUT_bad_date: "fst (PUT_api_upcoming_content_id exampleDate ''1''
          (JObj [(''releaseDate'', JStr ''not-a-date'')]) upcomingDb) =
     respond 500 (Error ''Failed to update upcoming content'')" by code_simp

lemma POST_bad_date: "fst (POST_api_upcoming_content exampleDate 1000 badDatePayload emptyDb) =
     respond 500 (Error ''Failed to create upcoming content'')" by code_simp

text \<open>
  The claim as the specification states it fails: the payload with the release date
  \<open>not-a-date\<close> passes the insert schema, and both routes respond 500 for it, not 400.
\<close>

theorem unparseable_releaseDate_not_rejected:
  "exampleDate (JStr ''not-a-date'') = None \<and>
   parse (insertUpcomingContentSchema exampleDate) [] badDatePayload =
     Inr (JObj [(''title'', JStr ''U''), (''type'', JStr ''movie''),
                (''genres'', JArr [JStr ''Drama'']), (''releaseDate'', JDate None),
                (''description'', JStr ''soon'')]) \<and>
   fst (PUT_api_upcoming_content_id exampleDate ''1''
          (JObj [(''releaseDate'', JStr ''not-a-date'')]) upcomingDb) =
     respond 500 (Error ''Failed to update upcoming content'') \<and>
   fst (POST_api_upcoming_content exampleDate 1000 badDatePayload emptyDb) =
     respond 500 (Error ''Failed to create upcoming content'')"
  using exampleDate_unparseable parse_badDatePayload PUT_bad_date POST_bad_date by (intro conjI)

lemma parse_partial_bad_date:
  "parse (partial (insertUpcomingContentSchema exampleDate)) []
     (JObj [(''releaseDate'', JStr ''not-a-date'')]) = Inr (JObj [(''releaseDate'', JDate None)])"
  by code_simp

lemma parse_partial_bad_title:
  "parse (partial (insertUpcomingContentSchema exampleDate)) []
     (JObj [(''title'', JNum 3), (''releaseDate'', JStr ''not-a-date'')]) =
   Inl [ZodIssue ''invalid_type'' [Key ''title''] ''Expected string, received number'']"
  by code_simp

text \<open>With the example date constructor: one body whose only flaw is the date, and one
  whose title is a number.\<close>

theorem unparseable_releaseDate_is_coerced_witness:
  "getProp [(''releaseDate'', JStr ''not-a-date'')] ''releaseDate'' = JStr ''not-a-date'' \<and>
   getProp [(''title'', JNum 3), (''releaseDate'', JStr ''not-a-date'')] ''releaseDate'' =
     JStr ''not-a-date'' \<and>
   exampleDate (JStr ''not-a-date'') = None \<and>
   exampleDate (JStr ''2025-01-01'') = Some 1735689600000 \<and>
   PUT_api_upcoming_content_id exampleDate ''1'' (JObj [(''releaseDate'', JStr ''not-a-date'')])
       upcomingDb =
     (respond 500 (Error ''Failed to update upcoming content''), upcomingDb) \<and>
   PUT_api_upcoming_content_id exampleDate ''1''
       (JObj [(''title'', JNum 3), (''releaseDate'', JStr ''not-a-date'')]) upcomingDb =
     (respond 400 (ErrorDetails ''Invalid data''
        [ZodIssue ''invalid_type'' [Key ''title''] ''Expected string, received number'']),
      upcomingDb)"
proof -
  have g1: "getProp [(''releaseDate'', JStr ''not-a-date'')] ''releaseDate'' = JStr ''not-a-date''"
    by simp
  have g2: "getProp [(''title'', JNum 3), (''releaseDate'', JStr ''not-a-date'')] ''releaseDate'' =
     JStr ''not-a-date''" by simp
  have d2: "exampleDate (JStr ''2025-01-01'') = Some 1735689600000" by code_simp
  note un = exampleDate_unparseable
  note T1 = unparseable_releaseDate_is_coerced[where Date = exampleDate
      and kvs = "[(''releaseDate'', JStr ''not-a-date'')]" and s = "''not-a-date''"
      and pid = "''1''" and db = upcomingDb, OF g1 un,
      THEN conjunct2, THEN conjunct2, THEN conjunct2, THEN conjunct2, THEN spec, THEN mp,
      OF parse_partial_bad_date]
  note T2 = unparseable_releaseDate_is_coerced[where Date = exampleDate
      and kvs = "[(''title'', JNum 3), (''releaseDate'', JStr ''not-a-date'')]"
      and s = "''not-a-date''" and pid = "''1''" and db = upcomingDb, OF g2 un,
      THEN conjunct2, THEN conjunct2, THEN conjunct2, THEN conjunct1, THEN spec, THEN mp,
      OF parse_partial_bad_title, THEN conjunct1]
  from g1 g2 un d2 T1 T2 show ?thesis by (intro conjI)
qed

end
